theory Spec2Isabelle
  imports Main "HOL-Library.Extended_Nat"
begin

section \<open>JavaScript strings and numbers\<close>

text \<open>
  A JavaScript string is modelled as a \<^typ>\<open>string\<close>: a list of characters, each
  character standing for one code unit of the 8-bit range. \<open>slice\<close> and \<open>startsWith\<close>
  never throw on a string; out-of-range indices give a shorter (possibly empty) result,
  which is what \<^const>\<open>take\<close> and \<^const>\<open>drop\<close> do.
\<close>

type_synonym hex = string
type_synonym address = string

definition startsWith :: "string \<Rightarrow> string \<Rightarrow> bool" where
  "startsWith str searchString = (take (length searchString) str = searchString)"

text \<open>\<open>str.slice(start, end)\<close> for the non-negative literal indices the source uses.\<close>

definition slice :: "string \<Rightarrow> nat \<Rightarrow> nat \<Rightarrow> string" where
  "slice str start end = take (end - start) (drop start str)"

text \<open>
  The result of \<open>Number.parseInt\<close> is an integral number or \<open>NaN\<close>. (The sign of a zero
  is not modelled: \<open>parseInt("-0", 16)\<close> is \<open>-0\<close> in JavaScript and \<open>Num 0\<close> here.)
\<close>

datatype number = NaN | Num int

text \<open>White space and line terminators that \<open>parseInt\<close> skips, within the 8-bit range.\<close>

definition isWhiteSpace :: "char \<Rightarrow> bool" where
  "isWhiteSpace c = (of_char c \<in> {9, 10, 11, 12, 13, 32, 160 :: nat})"

text \<open>The value of a radix-16 digit, \<open>None\<close> for any other character.\<close>

definition hexDigit :: "char \<Rightarrow> nat option" where
  "hexDigit c =
     (let n = (of_char c :: nat) in
      if 48 \<le> n \<and> n \<le> 57 then Some (n - 48)
      else if 97 \<le> n \<and> n \<le> 102 then Some (n - 87)
      else if 65 \<le> n \<and> n \<le> 70 then Some (n - 55)
      else None)"

definition isHexDigit :: "char \<Rightarrow> bool" where
  "isHexDigit c = (hexDigit c \<noteq> None)"

definition digitValue :: "char \<Rightarrow> nat" where
  "digitValue c = (case hexDigit c of Some d \<Rightarrow> d | None \<Rightarrow> 0)"

text \<open>The mathematical value of a string of radix-16 digits, most significant first.\<close>

definition hexValue :: "string \<Rightarrow> nat" where
  "hexValue z = foldl (\<lambda>acc c. 16 * acc + digitValue c) 0 z"

text \<open>
  \<open>Number.parseInt(str, 16)\<close> as ECMAScript defines it: skip leading white space, read
  an optional sign, drop an optional \<open>0x\<close> or \<open>0X\<close>, take the longest prefix of
  radix-16 digits; no digit gives \<open>NaN\<close>. The source only applies it to a slice of at
  most two characters, where the value is exact.
\<close>

definition parseInt16 :: "string \<Rightarrow> number" where
  "parseInt16 str =
     (let s0 = dropWhile isWhiteSpace str;
          negative = (take 1 s0 = ''-'');
          s1 = (if take 1 s0 = ''+'' \<or> take 1 s0 = ''-'' then drop 1 s0 else s0);
          s2 = (if take 2 s1 = ''0x'' \<or> take 2 s1 = ''0X'' then drop 2 s1 else s1);
          z = takeWhile isHexDigit s2
      in if z = [] then NaN
         else Num ((if negative then - 1 else 1) * int (hexValue z)))"

section \<open>Signature codec\<close>

text \<open>
  \<open>splitSignature\<close> (relayHelpers.ts, and the same text in the front end's permit module):
  \<^verbatim>\<open>
  const raw = signature.startsWith("0x") ? signature.slice(2) : signature;
  const r = `0x${raw.slice(0, 64)}`;
  const s = `0x${raw.slice(64, 128)}`;
  const v = Number.parseInt(raw.slice(128, 130), 16);
  return { v, r, s };
  \<close>
  The fields \<open>v\<close>, \<open>r\<close>, \<open>s\<close> carry the prefix \<open>sig_\<close> here, since a one-letter record
  field would capture every variable of that name.
\<close>

record split_signature =
  sig_v :: number
  sig_r :: hex
  sig_s :: hex

text \<open>The local \<open>raw\<close>: the signature without its optional \<open>0x\<close>.\<close>

definition signature_raw :: "hex \<Rightarrow> string" where
  "signature_raw signature =
     (if startsWith signature ''0x'' then drop 2 signature else signature)"

definition splitSignature :: "hex \<Rightarrow> split_signature" where
  "splitSignature signature =
     (let raw = signature_raw signature;
          r = ''0x'' @ slice raw 0 64;
          s = ''0x'' @ slice raw 64 128;
          v = parseInt16 (slice raw 128 130)
      in \<lparr>sig_v = v, sig_r = r, sig_s = s\<rparr>)"

text \<open>
  The bytes a hex string denotes, two digits per byte: the reading of "byte" that the
  statements about the 65-byte layout use. It is not part of the program.
\<close>

fun hex_bytes :: "string \<Rightarrow> nat list" where
  "hex_bytes (a # b # cs) = (16 * digitValue a + digitValue b) # hex_bytes cs"
| "hex_bytes cs = []"

text \<open>
  The byte sequence \<open>r ++ s ++ v\<close> of a split signature, when \<open>v\<close> is a non-negative
  number. Also not part of the program.
\<close>

definition reassemble :: "split_signature \<Rightarrow> nat list option" where
  "reassemble sg =
     (case sig_v sg of
        NaN \<Rightarrow> None
      | Num n \<Rightarrow>
          if n < 0 then None
          else Some (hex_bytes (drop 2 (sig_r sg)) @ hex_bytes (drop 2 (sig_s sg)) @ [nat n]))"

text \<open>
  A well-formed signature body for the examples: 32 bytes \<open>0xa1\<close>, 32 bytes \<open>0xb2\<close> and
  the byte \<open>0xff\<close>, which no signer would produce as a recovery identifier.
\<close>

definition example_raw :: string where
  "example_raw = concat (replicate 32 ''a1'') @ concat (replicate 32 ''B2'') @ ''ff''"

section \<open>Fee ceiling\<close>

text \<open>
  Both command-line scripts (and the browser handler) compute the fee ceiling with the
  expression
  \<^verbatim>\<open>(estimatedFee * (10_000n + feeBufferBps)) / 10_000n\<close>
  on JavaScript bigints. Bigints are unbounded, so they are \<^typ>\<open>int\<close>; bigint division
  truncates toward zero, which differs from HOL's flooring \<open>div\<close> on negative operands, so
  it is written out. The divisor of the only use is the literal 10000, so the RangeError
  of a zero divisor cannot occur.
\<close>

definition bigint_div :: "int \<Rightarrow> int \<Rightarrow> int" where
  "bigint_div a b = sgn a * sgn b * (\<bar>a\<bar> div \<bar>b\<bar>)"

definition maxFee :: "int \<Rightarrow> int \<Rightarrow> int" where
  "maxFee estimatedFee feeBufferBps =
     bigint_div (estimatedFee * (10000 + feeBufferBps)) 10000"

section \<open>Signature codec on JavaScript values\<close>

text \<open>
  Whether \<open>splitSignature\<close> can throw is a question about JavaScript values, not only
  about the strings the type \<open>Hex\<close> promises. Here a value is \<open>undefined\<close>, \<open>null\<close> or a
  string, and a string is a list of UTF-16 code units (numbers; a code unit is below
  65536, and every list of code units is covered). A method call on \<open>undefined\<close> or
  \<open>null\<close> throws a \<open>TypeError\<close>; on a string \<open>startsWith\<close> and \<open>slice\<close> return. The
  conversion to a string inside the template literal and inside \<open>parseInt\<close> never throws
  on these values.
\<close>

type_synonym code_unit = nat

datatype js_value = JS_undefined | JS_null | JS_string "code_unit list"

datatype js_error = JS_TypeError

text \<open>The code units of a string of the 8-bit model.\<close>

definition units :: "string \<Rightarrow> code_unit list" where
  "units str = map of_char str"

definition method_startsWith :: "js_value \<Rightarrow> code_unit list \<Rightarrow> js_error + bool" where
  "method_startsWith this searchString =
     (case this of
        JS_string cs \<Rightarrow> Inr (take (length searchString) cs = searchString)
      | JS_undefined \<Rightarrow> Inl JS_TypeError
      | JS_null \<Rightarrow> Inl JS_TypeError)"

text \<open>\<open>this.slice(start, end)\<close> and, with \<open>None\<close> for the end, \<open>this.slice(start)\<close>.\<close>

definition method_slice :: "js_value \<Rightarrow> nat \<Rightarrow> nat option \<Rightarrow> js_error + js_value" where
  "method_slice this start end =
     (case this of
        JS_string cs \<Rightarrow>
          Inr (JS_string (case end of
                            None \<Rightarrow> drop start cs
                          | Some e \<Rightarrow> take (e - start) (drop start cs)))
      | JS_undefined \<Rightarrow> Inl JS_TypeError
      | JS_null \<Rightarrow> Inl JS_TypeError)"

definition to_string :: "js_value \<Rightarrow> code_unit list" where
  "to_string v =
     (case v of
        JS_string cs \<Rightarrow> cs
      | JS_undefined \<Rightarrow> units ''undefined''
      | JS_null \<Rightarrow> units ''null'')"

text \<open>
  \<open>parseInt\<close> with radix 16 on code units. White space is what ECMAScript's
  \<open>StrWhiteSpaceChar\<close> lists: TAB, LF, VT, FF, CR, the space separators U+0020, U+00A0,
  U+1680, U+2000 to U+200A, U+202F, U+205F, U+3000, the line and paragraph separators
  U+2028 and U+2029, and U+FEFF.
\<close>

definition isWhiteSpace_unit :: "code_unit \<Rightarrow> bool" where
  "isWhiteSpace_unit u =
     (u \<in> {9, 10, 11, 12, 13, 32, 160, 5760, 8232, 8233, 8239, 8287, 12288, 65279} \<or>
      (8192 \<le> u \<and> u \<le> 8202))"

definition hexDigit_unit :: "code_unit \<Rightarrow> nat option" where
  "hexDigit_unit u =
     (if 48 \<le> u \<and> u \<le> 57 then Some (u - 48)
      else if 97 \<le> u \<and> u \<le> 102 then Some (u - 87)
      else if 65 \<le> u \<and> u \<le> 70 then Some (u - 55)
      else None)"

definition parseInt_units :: "code_unit list \<Rightarrow> number" where
  "parseInt_units str =
     (let s0 = dropWhile isWhiteSpace_unit str;
          negative = (take 1 s0 = units ''-'');
          s1 = (if take 1 s0 = units ''+'' \<or> take 1 s0 = units ''-'' then drop 1 s0 else s0);
          s2 = (if take 2 s1 = units ''0x'' \<or> take 2 s1 = units ''0X'' then drop 2 s1 else s1);
          z = takeWhile (\<lambda>u. hexDigit_unit u \<noteq> None) s2
      in if z = [] then NaN
         else Num ((if negative then - 1 else 1) *
                   int (foldl (\<lambda>acc u. 16 * acc +
                          (case hexDigit_unit u of Some d \<Rightarrow> d | None \<Rightarrow> 0)) 0 z)))"

record split_result =
  js_v :: number
  js_r :: "code_unit list"
  js_s :: "code_unit list"

text \<open>
  \<open>splitSignature\<close> statement by statement, each method call with its receiver; the first
  call that throws ends the function.
\<close>

definition splitSignature_js :: "js_value \<Rightarrow> js_error + split_result" where
  "splitSignature_js signature =
     (case method_startsWith signature (units ''0x'') of
        Inl err \<Rightarrow> Inl err
      | Inr prefixed \<Rightarrow>
         (case (if prefixed then method_slice signature 2 None else Inr signature) of
            Inl err \<Rightarrow> Inl err
          | Inr raw \<Rightarrow>
             (case method_slice raw 0 (Some 64) of
                Inl err \<Rightarrow> Inl err
              | Inr r_body \<Rightarrow>
                 (case method_slice raw 64 (Some 128) of
                    Inl err \<Rightarrow> Inl err
                  | Inr s_body \<Rightarrow>
                     (case method_slice raw 128 (Some 130) of
                        Inl err \<Rightarrow> Inl err
                      | Inr v_digits \<Rightarrow>
                          Inr \<lparr>js_v = parseInt_units (to_string v_digits),
                               js_r = units ''0x'' @ to_string r_body,
                               js_s = units ''0x'' @ to_string s_body\<rparr>)))))"

section \<open>Permit builder\<close>

text \<open>
  The chain client is an external collaborator. A read either returns a value or
  rejects with an error of the client's error type \<open>'e\<close>; a read is \<open>'e + 'a\<close> with
  \<open>Inl\<close> the rejection. The four reads of \<open>readPermitMetadata\<close> run concurrently under
  \<open>Promise.all\<close>, which rejects with the reason of the promise that rejects first in
  time; \<open>settle_order\<close> is the order in which the four promises of a run settle (a read
  that the list leaves out settles after those listed, in array order).
\<close>

datatype read_id = ReadName | ReadVersion | ReadDecimals | ReadNonces

record 'e chain_client =
  read_name :: "address \<Rightarrow> 'e + string"
  read_version :: "address \<Rightarrow> 'e + string"
  read_decimals :: "address \<Rightarrow> 'e + nat"
  read_nonces :: "address \<Rightarrow> address \<Rightarrow> 'e + int"
  settle_order :: "read_id list"

text \<open>
  \<^verbatim>\<open>
  try { return await client.readContract({ ..., functionName: "version" }); }
  catch { return "1"; }
  \<close>
\<close>

definition readTokenVersion :: "'e chain_client \<Rightarrow> address \<Rightarrow> string" where
  "readTokenVersion client token =
     (case read_version client token of Inr version \<Rightarrow> version | Inl err \<Rightarrow> ''1'')"

record permit_meta =
  meta_name :: string
  meta_version :: string
  meta_decimals :: nat
  meta_nonce :: int

definition rejection :: "'e + 'a \<Rightarrow> 'e option" where
  "rejection p = (case p of Inl err \<Rightarrow> Some err | Inr x \<Rightarrow> None)"

text \<open>The reason of the first promise, in the given order, that rejects.\<close>

fun first_rejection :: "('i \<Rightarrow> 'e option) \<Rightarrow> 'i list \<Rightarrow> 'e option" where
  "first_rejection rejected [] = None"
| "first_rejection rejected (i # rest) =
     (case rejected i of Some err \<Rightarrow> Some err | None \<Rightarrow> first_rejection rejected rest)"

text \<open>
  \<^verbatim>\<open>
  const [name, version, decimals, nonce] = await Promise.all([
    client.readContract({ ..., functionName: "name" }),
    readTokenVersion(client, token),
    client.readContract({ ..., functionName: "decimals" }),
    client.readContract({ ..., functionName: "nonces", args: [owner] }),
  ]);
  return { name, version, decimals, nonce };
  \<close>
  \<open>readTokenVersion\<close> never rejects, so its promise has no rejection.
\<close>

definition readPermitMetadata ::
  "'e chain_client \<Rightarrow> address \<Rightarrow> address \<Rightarrow> 'e + permit_meta" where
  "readPermitMetadata client token owner =
     (let name = read_name client token;
          version = readTokenVersion client token;
          decimals = read_decimals client token;
          nonce = read_nonces client token owner;
          rejected = (\<lambda>i. case i of
                         ReadName \<Rightarrow> rejection name
                       | ReadVersion \<Rightarrow> None
                       | ReadDecimals \<Rightarrow> rejection decimals
                       | ReadNonces \<Rightarrow> rejection nonce)
      in case first_rejection rejected (settle_order client) of
           Some err \<Rightarrow> Inl err
         | None \<Rightarrow>
            (case name of
               Inl err \<Rightarrow> Inl err
             | Inr n \<Rightarrow>
                (case decimals of
                   Inl err \<Rightarrow> Inl err
                 | Inr d \<Rightarrow>
                    (case nonce of
                       Inl err \<Rightarrow> Inl err
                     | Inr k \<Rightarrow>
                         Inr \<lparr>meta_name = n, meta_version = version,
                              meta_decimals = d, meta_nonce = k\<rparr>))))"

text \<open>The typed-data request handed to the signer.\<close>

record eip712_domain =
  domain_name :: string
  domain_version :: string
  domain_chainId :: int
  verifyingContract :: address

record permit_message =
  msg_owner :: address
  msg_spender :: address
  msg_value :: int
  msg_nonce :: int
  msg_deadline :: int

record typed_data =
  td_domain :: eip712_domain
  td_types :: "(string \<times> (string \<times> string) list) list"
  td_primaryType :: string
  td_message :: permit_message

definition PERMIT_TYPES :: "(string \<times> (string \<times> string) list) list" where
  "PERMIT_TYPES =
     [(''Permit'',
       [(''owner'', ''address''),
        (''spender'', ''address''),
        (''value'', ''uint256''),
        (''nonce'', ''uint256''),
        (''deadline'', ''uint256'')])]"

text \<open>
  The argument of \<open>signTypedData\<close>, the same object literal in both builders:
  \<^verbatim>\<open>
  { domain: { name: meta.name, version: meta.version, chainId, verifyingContract: token },
    types: PERMIT_TYPES, primaryType: "Permit",
    message: { owner, spender, value: amount, nonce: meta.nonce, deadline: permitDeadline } }
  \<close>
\<close>

definition permit_request ::
  "permit_meta \<Rightarrow> int \<Rightarrow> address \<Rightarrow> address \<Rightarrow> address \<Rightarrow> int \<Rightarrow> int \<Rightarrow> typed_data" where
  "permit_request meta chainId token owner spender amount permitDeadline =
     \<lparr>td_domain =
        \<lparr>domain_name = meta_name meta,
         domain_version = meta_version meta,
         domain_chainId = chainId,
         verifyingContract = token\<rparr>,
      td_types = PERMIT_TYPES,
      td_primaryType = ''Permit'',
      td_message =
        \<lparr>msg_owner = owner,
         msg_spender = spender,
         msg_value = amount,
         msg_nonce = meta_nonce meta,
         msg_deadline = permitDeadline\<rparr>\<rparr>"

record permit_signature_result =
  res_amount :: int
  res_v :: number
  res_r :: hex
  res_s :: hex
  res_decimals :: nat

text \<open>
  \<open>buildPermitSignature\<close> of relayHelpers.ts (the command-line builder). \<open>parseUnits\<close>
  is the chain library's decimal parser, which throws on a malformed amount string, and
  \<open>signer\<close> is the account's \<open>signTypedData\<close>; both are parameters. The result is paired
  with the list of requests the signer received during the call.
\<close>

record build_params =
  p_owner :: address
  p_token :: address
  p_spender :: address
  p_amountInput :: string
  p_permitDeadline :: int
  p_chainId :: int

definition buildPermitSignature ::
  "'e chain_client \<Rightarrow> (string \<Rightarrow> nat \<Rightarrow> 'e + int) \<Rightarrow> (typed_data \<Rightarrow> 'e + hex) \<Rightarrow>
   build_params \<Rightarrow> ('e + permit_signature_result) \<times> typed_data list" where
  "buildPermitSignature publicClient parseUnits signer params =
     (case readPermitMetadata publicClient (p_token params) (p_owner params) of
        Inl err \<Rightarrow> (Inl err, [])
      | Inr meta \<Rightarrow>
         (case parseUnits (p_amountInput params) (meta_decimals meta) of
            Inl err \<Rightarrow> (Inl err, [])
          | Inr amount \<Rightarrow>
             (let request =
                    permit_request meta (p_chainId params) (p_token params) (p_owner params)
                      (p_spender params) amount (p_permitDeadline params)
              in case signer request of
                   Inl err \<Rightarrow> (Inl err, [request])
                 | Inr signature \<Rightarrow>
                    (let sg = splitSignature signature
                     in (Inr \<lparr>res_amount = amount, res_v = sig_v sg, res_r = sig_r sg,
                              res_s = sig_s sg, res_decimals = meta_decimals meta\<rparr>,
                         [request])))))"

text \<open>
  \<open>buildPermitSignature\<close> of the front end's permit module: the amount arrives as a
  bigint already, and the wallet client signs for \<open>account: owner\<close>, so the signer takes
  the account beside the request.
\<close>

record frontend_build_params =
  fp_owner :: address
  fp_token :: address
  fp_spender :: address
  fp_amount :: int
  fp_permitDeadline :: int
  fp_chainId :: int

definition buildPermitSignature_frontend ::
  "'e chain_client \<Rightarrow> (address \<Rightarrow> typed_data \<Rightarrow> 'e + hex) \<Rightarrow>
   frontend_build_params \<Rightarrow> ('e + permit_signature_result) \<times> typed_data list" where
  "buildPermitSignature_frontend publicClient walletSign params =
     (case readPermitMetadata publicClient (fp_token params) (fp_owner params) of
        Inl err \<Rightarrow> (Inl err, [])
      | Inr meta \<Rightarrow>
         (let request =
                permit_request meta (fp_chainId params) (fp_token params) (fp_owner params)
                  (fp_spender params) (fp_amount params) (fp_permitDeadline params)
          in case walletSign (fp_owner params) request of
               Inl err \<Rightarrow> (Inl err, [request])
             | Inr signature \<Rightarrow>
                (let sg = splitSignature signature
                 in (Inr \<lparr>res_amount = fp_amount params, res_v = sig_v sg,
                          res_r = sig_r sg, res_s = sig_s sg,
                          res_decimals = meta_decimals meta\<rparr>,
                     [request]))))"

text \<open>
  An environment for the examples: a token whose \<open>version()\<close> read fails while the
  other reads succeed, a signer that always returns the example signature, and a
  stand-in for the library's \<open>parseUnits\<close> that accepts a non-empty string of decimal
  digits (scaling it by the decimals) and throws on anything else, as the library does on
  a string that is not a decimal number.
\<close>

definition example_client :: "string chain_client" where
  "example_client =
     \<lparr>read_name = (\<lambda>token. Inr ''USD Coin''),
      read_version = (\<lambda>token. Inl ''execution reverted''),
      read_decimals = (\<lambda>token. Inr 6),
      read_nonces = (\<lambda>token owner. Inr 7),
      settle_order = [ReadVersion, ReadNonces, ReadName, ReadDecimals]\<rparr>"

definition example_signer :: "typed_data \<Rightarrow> string + hex" where
  "example_signer request = Inr (''0x'' @ example_raw)"

definition example_wallet_sign :: "address \<Rightarrow> typed_data \<Rightarrow> string + hex" where
  "example_wallet_sign account request = Inr (''0x'' @ example_raw)"

definition example_parseUnits :: "string \<Rightarrow> nat \<Rightarrow> string + int" where
  "example_parseUnits str decimals =
     (if str \<noteq> [] \<and> list_all (\<lambda>c. 48 \<le> (of_char c :: nat) \<and> (of_char c :: nat) \<le> 57) str
      then Inr (int (foldl (\<lambda>acc c. 10 * acc + (of_char c - 48)) 0 str) * 10 ^ decimals)
      else Inl ''InvalidDecimalNumberError'')"

definition example_params :: build_params where
  "example_params =
     \<lparr>p_owner = ''0xOwner'', p_token = ''0xToken'', p_spender = ''0xSpender'',
      p_amountInput = ''100'', p_permitDeadline = 1700000000, p_chainId = 8453\<rparr>"

definition example_frontend_params :: frontend_build_params where
  "example_frontend_params =
     \<lparr>fp_owner = ''0xOwner'', fp_token = ''0xToken'', fp_spender = ''0xSpender'',
      fp_amount = 100000000, fp_permitDeadline = 1700000000, fp_chainId = 8453\<rparr>"

text \<open>The request the example signer receives for the example parameters.\<close>

definition example_request :: typed_data where
  "example_request =
     permit_request
       \<lparr>meta_name = ''USD Coin'', meta_version = ''1'', meta_decimals = 6, meta_nonce = 7\<rparr>
       8453 ''0xToken'' ''0xOwner'' ''0xSpender'' 100000000 1700000000"

section \<open>Asynchronous operations of the environment\<close>

text \<open>
  An operation of the environment (a relay call) is a state transformer: applied to the
  state of the outside world it returns its outcome, \<open>Inl\<close> a rejection and \<open>Inr\<close> a
  value, and the next state. \<open>response fn st n\<close> is the outcome of invocation number \<open>n\<close>
  (counted from 0) when the invocations start in state \<open>st\<close>.
\<close>

type_synonym ('s, 'e, 'a) operation = "'s \<Rightarrow> ('e + 'a) \<times> 's"

fun state_after :: "('s \<Rightarrow> 'r \<times> 's) \<Rightarrow> 's \<Rightarrow> nat \<Rightarrow> 's" where
  "state_after fn st 0 = st"
| "state_after fn st (Suc n) = state_after fn (snd (fn st)) n"

definition response :: "('s \<Rightarrow> 'r \<times> 's) \<Rightarrow> 's \<Rightarrow> nat \<Rightarrow> 'r" where
  "response fn st n = fst (fn (state_after fn st n))"

section \<open>Retry wrapper\<close>

text \<open>
  What a promise can reject with and what a \<open>throw\<close> can throw: \<open>undefined\<close>, \<open>null\<close>,
  any other value (of the type \<open>'e\<close>), or the \<open>TypeError\<close> the runtime raises when a
  property of \<open>undefined\<close> or \<open>null\<close> is read.
\<close>

datatype 'e thrown = Undefined | Null | Thrown 'e | TypeError

text \<open>
  The log line of a catch handler evaluates the template
  \<^verbatim>\<open>${(err as Error).message ?? err}\<close>
  inside the handler, so what it throws leaves the function. Reading \<open>message\<close> of
  \<open>undefined\<close> or \<open>null\<close> throws a \<open>TypeError\<close>; a \<open>TypeError\<close> object has a message
  string; for every other reason \<open>message_throws\<close>, a parameter, says what the evaluation
  throws, if anything (\<open>None\<close> for an \<open>Error\<close> object, a string or a number; a symbol or
  a throwing getter make it throw).
\<close>

definition log_throws :: "('e \<Rightarrow> 'e thrown option) \<Rightarrow> 'e thrown \<Rightarrow> 'e thrown option" where
  "log_throws message_throws err =
     (case err of
        Undefined \<Rightarrow> Some TypeError
      | Null \<Rightarrow> Some TypeError
      | Thrown e \<Rightarrow> message_throws e
      | TypeError \<Rightarrow> None)"

text \<open>
  \<^verbatim>\<open>
  export const retry = async <T>(fn, maxRetries = 3, delayMs = 1500) => {
    let lastErr: unknown;
    for (let attempt = 0; attempt <= maxRetries; attempt++) {
      try { return await fn(); }
      catch (err) {
        lastErr = err;
        if (attempt === maxRetries) break;
        console.warn(`Retrying (${attempt + 1}/${maxRetries}) after error: ${(err as Error).message ?? err}`);
        await sleep(delayMs);
      }
    }
    throw lastErr;
  };
  \<close>
  \<open>maxRetries\<close> is an integral number. What \<open>retry\<close> throws after the loop is the value
  of \<open>lastErr\<close>, which is still \<open>undefined\<close> when the loop body never ran. On an attempt
  that is not the last, the warning line is evaluated before the sleep; when it throws,
  \<open>retry\<close> ends with what it threw, without sleeping or invoking \<open>fn\<close> again. The result
  records, beside the outcome, how many times \<open>fn\<close> was invoked and the delays slept, in
  order.
\<close>

record ('e, 'a) retry_result =
  outcome :: "'e thrown + 'a"
  calls :: nat
  slept :: "int list"

function retry_loop ::
  "('e \<Rightarrow> 'e thrown option) \<Rightarrow> ('s, 'e thrown, 'a) operation \<Rightarrow> int \<Rightarrow> int \<Rightarrow> int \<Rightarrow>
   'e thrown \<Rightarrow> 's \<Rightarrow> nat \<Rightarrow> int list \<Rightarrow> ('e, 'a) retry_result" where
  "retry_loop message_throws fn maxRetries delayMs attempt lastErr st n zs =
     (if attempt \<le> maxRetries then
        (case fn st of
           (Inr val, st') \<Rightarrow> \<lparr>outcome = Inr val, calls = n + 1, slept = zs\<rparr>
         | (Inl err, st') \<Rightarrow>
             if attempt = maxRetries
             then \<lparr>outcome = Inl err, calls = n + 1, slept = zs\<rparr>
             else
               (case log_throws message_throws err of
                  Some t \<Rightarrow> \<lparr>outcome = Inl t, calls = n + 1, slept = zs\<rparr>
                | None \<Rightarrow>
                    retry_loop message_throws fn maxRetries delayMs (attempt + 1) err st'
                      (n + 1) (zs @ [delayMs])))
      else \<lparr>outcome = Inl lastErr, calls = n, slept = zs\<rparr>)"
  by pat_completeness auto
termination
  by (relation "measure (\<lambda>(message_throws, fn, maxRetries, delayMs, attempt, lastErr, st, n, zs).
        nat (maxRetries + 1 - attempt))") auto

definition retry ::
  "('e \<Rightarrow> 'e thrown option) \<Rightarrow> ('s, 'e thrown, 'a) operation \<Rightarrow> int \<Rightarrow> int \<Rightarrow> 's \<Rightarrow>
   ('e, 'a) retry_result" where
  "retry message_throws fn maxRetries delayMs st =
     retry_loop message_throws fn maxRetries delayMs 0 Undefined st 0 []"

text \<open>
  The 1-based index of the first invocation that succeeds, \<open>\<infinity>\<close> when none does: the
  \<open>k\<close> of the statement about the number of invocations. It is not part of the program.
\<close>

definition first_success :: "('s, 'e, 'a) operation \<Rightarrow> 's \<Rightarrow> enat" where
  "first_success fn st =
     (if \<exists>j. \<not> isl (response fn st j)
      then enat (Suc (LEAST j. \<not> isl (response fn st j)))
      else \<infinity>)"

text \<open>
  Operations for the examples; the state counts the invocations. Of the first one the
  first two invocations fail with an error object (their index) and every later one
  returns a task identifier. The second one rejects with \<open>undefined\<close> on its first
  invocation and returns a task identifier from the second on. In the examples the log
  line evaluates for every reason that is an object.
\<close>

definition flaky_operation :: "(nat, nat thrown, string) operation" where
  "flaky_operation n = (if n < 2 then Inl (Thrown n) else Inr ''task-1'', Suc n)"

definition undefined_once_operation :: "(nat, nat thrown, string) operation" where
  "undefined_once_operation n = (if n = 0 then Inl Undefined else Inr ''task-1'', Suc n)"

definition message_evaluates :: "nat \<Rightarrow> nat thrown option" where
  "message_evaluates e = None"

section \<open>Task poller\<close>

text \<open>
  The fields of the relay's status response that the pollers read. A field is \<open>None\<close>
  when it is absent (\<open>undefined\<close>); a string is truthy when it is not empty.
\<close>

record task_status =
  taskState :: "string option"
  transactionHash :: "string option"

definition truthy :: "string option \<Rightarrow> bool" where
  "truthy x = (case x of None \<Rightarrow> False | Some str \<Rightarrow> str \<noteq> [])"

definition TERMINAL_STATES :: "string list" where
  "TERMINAL_STATES =
     [''ExecSuccess'', ''ExecReverted'', ''Cancelled'', ''Blacklisted'', ''NotFound'',
      ''Reverted'', ''CancelledByUser'']"

text \<open>
  The test of the poller, on the value \<open>getTaskStatus\<close> resolved with (which may be
  \<open>undefined\<close>):
  \<^verbatim>\<open>
  const state = lastStatus?.taskState;
  const txHash = lastStatus?.transactionHash;
  if (txHash || (state && TERMINAL_STATES.has(String(state)))) return lastStatus;
  \<close>
\<close>

definition terminal_observed :: "task_status option \<Rightarrow> bool" where
  "terminal_observed lastStatus =
     (let state = Option.bind lastStatus taskState;
          txHash = Option.bind lastStatus transactionHash
      in truthy txHash \<or>
         (truthy state \<and> (case state of None \<Rightarrow> False | Some str \<Rightarrow> str \<in> set TERMINAL_STATES)))"

text \<open>
  \<^verbatim>\<open>
  let lastStatus;
  for (let i = 0; i < maxAttempts; i++) {
    try {
      lastStatus = await relay.getTaskStatus(taskId);
      printTaskStatus(lastStatus, taskId);
      ... if (terminal) return lastStatus;
    } catch (err) { console.error(...); }
    await sleepMs(intervalMs);
  }
  return lastStatus;
  \<close>
  \<open>maxAttempts\<close> is an integral number. \<open>printTaskStatus\<close> only prints: it returns at
  once on a missing status and otherwise reads fields of the response, so it never throws
  and the test after it is always reached. The result records the returned status, the
  number of status queries made, the intervals slept, and whether the return was the one
  inside the loop. The function has no \<open>throw\<close> and catches every rejection of the query,
  so its result is always a value.
\<close>

record wait_result =
  returned :: "task_status option"
  polls :: nat
  waited :: "int list"
  from_loop :: bool

function waitForTaskFinal_loop ::
  "(string \<Rightarrow> ('s, 'e, task_status option) operation) \<Rightarrow> string \<Rightarrow> int \<Rightarrow> int \<Rightarrow> int \<Rightarrow>
   task_status option \<Rightarrow> 's \<Rightarrow> nat \<Rightarrow> int list \<Rightarrow> wait_result" where
  "waitForTaskFinal_loop getTaskStatus taskId maxAttempts intervalMs i lastStatus st n zs =
     (if i < maxAttempts then
        (case getTaskStatus taskId st of
           (Inr status, st') \<Rightarrow>
             if terminal_observed status
             then \<lparr>returned = status, polls = n + 1, waited = zs, from_loop = True\<rparr>
             else waitForTaskFinal_loop getTaskStatus taskId maxAttempts intervalMs (i + 1)
                    status st' (n + 1) (zs @ [intervalMs])
         | (Inl err, st') \<Rightarrow>
             waitForTaskFinal_loop getTaskStatus taskId maxAttempts intervalMs (i + 1)
               lastStatus st' (n + 1) (zs @ [intervalMs]))
      else \<lparr>returned = lastStatus, polls = n, waited = zs, from_loop = False\<rparr>)"
  by pat_completeness auto
termination
  by (relation "measure (\<lambda>(g, taskId, maxAttempts, intervalMs, i, lastStatus, st, n, zs).
        nat (maxAttempts - i))") auto

definition waitForTaskFinal ::
  "(string \<Rightarrow> ('s, 'e, task_status option) operation) \<Rightarrow> string \<Rightarrow> int \<Rightarrow> int \<Rightarrow> 's \<Rightarrow>
   wait_result" where
  "waitForTaskFinal getTaskStatus taskId maxAttempts intervalMs st =
     waitForTaskFinal_loop getTaskStatus taskId maxAttempts intervalMs 0 None st 0 []"

text \<open>
  Whether a response of the relay is a terminal observation, and the status last
  fetched successfully among the first \<open>n\<close> responses (starting from \<open>init\<close>). Both only
  serve to state properties of the poller.
\<close>

definition terminal_response :: "'e + task_status option \<Rightarrow> bool" where
  "terminal_response rsp =
     (case rsp of Inl err \<Rightarrow> False | Inr status \<Rightarrow> terminal_observed status)"

fun last_fetched ::
  "task_status option \<Rightarrow> (nat \<Rightarrow> 'e + task_status option) \<Rightarrow> nat \<Rightarrow> task_status option" where
  "last_fetched init rsp 0 = init"
| "last_fetched init rsp (Suc n) =
     (case rsp n of Inr status \<Rightarrow> status | Inl err \<Rightarrow> last_fetched init rsp n)"

text \<open>
  A relay for the examples: the state counts the queries; the first query fails, the
  second reports a pending task, and from the third on the task has a transaction hash
  while its state is still \<open>CheckPending\<close>. A second relay never gets beyond the
  pending report, apart from the failure of its first query.
\<close>

definition pending_status :: task_status where
  "pending_status = \<lparr>taskState = Some ''CheckPending'', transactionHash = None\<rparr>"

definition hash_status :: task_status where
  "hash_status = \<lparr>taskState = Some ''CheckPending'', transactionHash = Some ''0xabc''\<rparr>"

definition example_relay :: "string \<Rightarrow> (nat, string, task_status option) operation" where
  "example_relay taskId n =
     (if n = 0 then Inl ''503''
      else if n = 1 then Inr (Some pending_status)
      else Inr (Some hash_status), Suc n)"

definition pending_relay :: "string \<Rightarrow> (nat, string, task_status option) operation" where
  "pending_relay taskId n =
     (if n = 1 then Inl ''503'' else Inr (Some pending_status), Suc n)"

section \<open>Front end\<close>

subsection \<open>The browser's poller\<close>

text \<open>
  \<open>toLowerCase\<close> on the 8-bit range (the letters A-Z, and the Latin-1 capitals) and
  \<open>includes\<close> (here \<open>includes_str\<close>), the search for a contiguous substring.
\<close>

definition toLowerCase_char :: "char \<Rightarrow> char" where
  "toLowerCase_char c =
     (let n = (of_char c :: nat) in
      if (65 \<le> n \<and> n \<le> 90) \<or> (192 \<le> n \<and> n \<le> 222 \<and> n \<noteq> 215)
      then char_of (n + 32) else c)"

definition toLowerCase :: "string \<Rightarrow> string" where
  "toLowerCase str = map toLowerCase_char str"

fun includes_str :: "string \<Rightarrow> string \<Rightarrow> bool" where
  "includes_str [] searchString = (searchString = [])"
| "includes_str (c # cs) searchString =
     (startsWith (c # cs) searchString \<or> includes_str cs searchString)"

text \<open>
  \<open>x ? String(x) : undefined\<close> on an optional string field: a falsy value (absent or
  empty) becomes \<open>undefined\<close>.
\<close>

definition string_or_undefined :: "string option \<Rightarrow> string option" where
  "string_or_undefined x = (if truthy x then x else None)"

record task_info =
  task_id :: string
  task_status :: "string option"
  task_txHash :: "string option"

text \<open>
  The test of the browser's poller on the two strings it derives from a response:
  \<^verbatim>\<open>
  if (txHash || (taskState && taskState.toLowerCase().includes("success"))) return;
  \<close>
\<close>

definition poll_finished :: "string option \<Rightarrow> string option \<Rightarrow> bool" where
  "poll_finished state txHash =
     (truthy txHash \<or>
      (truthy state \<and>
       (case state of None \<Rightarrow> False
        | Some str \<Rightarrow> includes_str (toLowerCase str) ''success'')))"

text \<open>
  \<open>pollTask\<close> of App.tsx (the same text in both versions of the file):
  \<^verbatim>\<open>
  for (let i = 0; i < appConfig.statusPolls; i++) {
    try {
      const status = await relay.getTaskStatus(taskId);
      const taskState = status?.taskState ? String(status.taskState) : undefined;
      const txHash = status?.transactionHash ? String(status.transactionHash) : undefined;
      setTask({ id: taskId, status: taskState, txHash });
      addLog(`Status ${i + 1}/${appConfig.statusPolls}: ${taskState ?? "pending"}`);
      if (txHash || (taskState && taskState.toLowerCase().includes("success"))) return;
    } catch (err) {
      addLog(`Status poll failed: ${(err as Error).message ?? err}`);
    }
    await sleep(appConfig.statusIntervalMs);
  }
  \<close>
  The limit \<open>statusPolls\<close> and the interval come from the application's configuration and
  are parameters here. The log line of the catch handler is the template of \<open>retry\<close>'s
  warning: when it throws, the exception leaves \<open>pollTask\<close> at once, before the sleep.
  \<open>pollTask\<close> returns nothing; the result records the task shown to the user (the last
  \<open>setTask\<close>), the number of status queries, the intervals slept, whether the loop was
  left by \<open>return\<close>, and what \<open>pollTask\<close> threw, if anything.
\<close>

record 'e poll_result =
  shown_task :: "task_info option"
  queries :: nat
  intervals :: "int list"
  returned_early :: bool
  threw :: "'e thrown option"

function pollTask_loop ::
  "('e \<Rightarrow> 'e thrown option) \<Rightarrow> (string \<Rightarrow> ('s, 'e thrown, task_status option) operation) \<Rightarrow>
   string \<Rightarrow> int \<Rightarrow> int \<Rightarrow> int \<Rightarrow> task_info option \<Rightarrow> 's \<Rightarrow> nat \<Rightarrow> int list \<Rightarrow>
   'e poll_result" where
  "pollTask_loop message_throws getTaskStatus taskId statusPolls statusIntervalMs i task st n zs =
     (if i < statusPolls then
        (case getTaskStatus taskId st of
           (Inr status, st') \<Rightarrow>
             (let state = string_or_undefined (Option.bind status taskState);
                  txHash = string_or_undefined (Option.bind status transactionHash);
                  task' = Some \<lparr>task_id = taskId, task_status = state, task_txHash = txHash\<rparr>
              in if poll_finished state txHash
                 then \<lparr>shown_task = task', queries = n + 1, intervals = zs,
                       returned_early = True, threw = None\<rparr>
                 else pollTask_loop message_throws getTaskStatus taskId statusPolls
                        statusIntervalMs (i + 1) task' st' (n + 1) (zs @ [statusIntervalMs]))
         | (Inl err, st') \<Rightarrow>
             (case log_throws message_throws err of
                Some t \<Rightarrow>
                  \<lparr>shown_task = task, queries = n + 1, intervals = zs,
                   returned_early = False, threw = Some t\<rparr>
              | None \<Rightarrow>
                  pollTask_loop message_throws getTaskStatus taskId statusPolls
                    statusIntervalMs (i + 1) task st' (n + 1) (zs @ [statusIntervalMs])))
      else \<lparr>shown_task = task, queries = n, intervals = zs, returned_early = False,
            threw = None\<rparr>)"
  by pat_completeness auto
termination
  by (relation "measure (\<lambda>(m, g, taskId, statusPolls, statusIntervalMs, i, task, st, n, zs).
        nat (statusPolls - i))") auto

definition pollTask ::
  "('e \<Rightarrow> 'e thrown option) \<Rightarrow> (string \<Rightarrow> ('s, 'e thrown, task_status option) operation) \<Rightarrow>
   string \<Rightarrow> int \<Rightarrow> int \<Rightarrow> task_info option \<Rightarrow> 's \<Rightarrow> 'e poll_result" where
  "pollTask message_throws getTaskStatus taskId statusPolls statusIntervalMs task st =
     pollTask_loop message_throws getTaskStatus taskId statusPolls statusIntervalMs 0 task st 0 []"

text \<open>Whether a response makes the browser's poller return. Not part of the program.\<close>

definition finishing_response :: "'e + task_status option \<Rightarrow> bool" where
  "finishing_response rsp =
     (case rsp of
        Inl err \<Rightarrow> False
      | Inr status \<Rightarrow>
          poll_finished (string_or_undefined (Option.bind status taskState))
            (string_or_undefined (Option.bind status transactionHash)))"

text \<open>
  Relays for the examples; the state counts the queries. The first one reports the task
  as cancelled, without a transaction hash, on every query. The second one rejects its
  first query with \<open>undefined\<close> and reports a pending task from then on. The third one
  rejects its first query with an error object, reports a pending task on the second and
  a transaction hash from the third on.
\<close>

definition cancelled_status :: task_status where
  "cancelled_status = \<lparr>taskState = Some ''Cancelled'', transactionHash = None\<rparr>"

definition cancelled_relay ::
  "string \<Rightarrow> (nat, string thrown, task_status option) operation" where
  "cancelled_relay taskId n = (Inr (Some cancelled_status), Suc n)"


definition failing_once_relay ::
  "string \<Rightarrow> (nat, string thrown, task_status option) operation" where
  "failing_once_relay taskId n =
     (if n = 0 then Inl (Thrown ''503'')
      else if n = 1 then Inr (Some pending_status)
      else Inr (Some hash_status), Suc n)"

definition error_message_evaluates :: "string \<Rightarrow> string thrown option" where
  "error_message_evaluates e = None"

subsection \<open>The submit handler\<close>

text \<open>
  The validation prefix of \<open>handleSubmit\<close>, up to the point where the network flow
  (building the permit, estimating the fee, submitting to the relay) starts. Every
  rejection is \<open>setError(message); return\<close>, before any network call of the handler. The
  state holds what the handler reads: whether a wallet is connected, the relay API key
  of the configuration, the token decimals and balance loaded earlier (\<open>None\<close> for
  \<open>null\<close>) and the text of the amount field. \<open>parseUnits\<close> is the chain library's
  decimal parser, a parameter. \<open>NetworkFlow amount\<close> stands for the flow started with
  \<open>parsedAmount = amount\<close>.
\<close>

record app_state =
  wallet_connected :: bool
  relayApiKey :: "string option"
  tokenDecimals :: "nat option"
  tokenBalance :: "int option"
  amountInput :: string

datatype submit_outcome = ValidationError string | NetworkFlow int

text \<open>App.tsx under frontend/src: the last check is \<open>parsedAmount > tokenBalance\<close>.\<close>

definition handleSubmit :: "(string \<Rightarrow> nat \<Rightarrow> 'e + int) \<Rightarrow> app_state \<Rightarrow> submit_outcome" where
  "handleSubmit parseUnits app =
     (if \<not> wallet_connected app then ValidationError ''Connect your wallet first.''
      else if \<not> truthy (relayApiKey app)
      then ValidationError ''Set VITE_GELATO_RELAY_API_KEY in frontend/.env before submitting.''
      else
        (case (tokenDecimals app, tokenBalance app) of
           (Some decimals, Some balance) \<Rightarrow>
             (case parseUnits (amountInput app) decimals of
                Inl err \<Rightarrow> ValidationError ''Invalid amount format.''
              | Inr parsedAmount \<Rightarrow>
                  if parsedAmount \<le> 0
                  then ValidationError ''Amount must be greater than zero.''
                  else if parsedAmount > balance
                  then ValidationError ''Insufficient balance.''
                  else NetworkFlow parsedAmount)
         | _ \<Rightarrow> ValidationError ''Token balance is not loaded yet.''))"

text \<open>
  The other version of App.tsx in the repository (unnamed/part_000): the last check is
  \<open>parsedAmount >= tokenBalance\<close>, with its own message.
\<close>

definition handleSubmit_part_000 ::
  "(string \<Rightarrow> nat \<Rightarrow> 'e + int) \<Rightarrow> app_state \<Rightarrow> submit_outcome" where
  "handleSubmit_part_000 parseUnits app =
     (if \<not> wallet_connected app then ValidationError ''Connect your wallet first.''
      else if \<not> truthy (relayApiKey app)
      then ValidationError ''Set VITE_GELATO_RELAY_API_KEY in frontend/.env before submitting.''
      else
        (case (tokenDecimals app, tokenBalance app) of
           (Some decimals, Some balance) \<Rightarrow>
             (case parseUnits (amountInput app) decimals of
                Inl err \<Rightarrow> ValidationError ''Invalid amount format.''
              | Inr parsedAmount \<Rightarrow>
                  if parsedAmount \<le> 0
                  then ValidationError ''Amount must be greater than zero.''
                  else if parsedAmount \<ge> balance
                  then ValidationError ''Amount must be smaller than your balance.''
                  else NetworkFlow parsedAmount)
         | _ \<Rightarrow> ValidationError ''Token balance is not loaded yet.''))"

text \<open>
  A state for the examples: a connected wallet, a token of 6 decimals with a balance of
  5 tokens, and the whole balance typed into the amount field.
\<close>

definition example_app :: app_state where
  "example_app =
     \<lparr>wallet_connected = True, relayApiKey = Some ''key'', tokenDecimals = Some 6,
      tokenBalance = Some 5000000, amountInput = ''5''\<rparr>"

section \<open>Properties of the fee ceiling\<close>

lemma bigint_div_nonneg: "0 \<le> a \<Longrightarrow> 0 < b \<Longrightarrow> bigint_div a b = a div b"
  by (cases "a = 0") (simp_all add: bigint_div_def)

lemma maxFee_nonneg_eq:
  "0 \<le> e \<Longrightarrow> 0 \<le> b \<Longrightarrow> maxFee e b = (e * (10000 + b)) div 10000"
  unfolding maxFee_def by (rule bigint_div_nonneg) simp_all

lemma maxFee_mono_fee:
  assumes "0 \<le> e" "e \<le> e'" "0 \<le> b"
  shows "maxFee e b \<le> maxFee e' b"
proof -
  have "e * (10000 + b) \<le> e' * (10000 + b)"
    using assms by (intro mult_right_mono) simp_all
  then have "(e * (10000 + b)) div 10000 \<le> (e' * (10000 + b)) div 10000"
    by (rule zdiv_mono1) simp
  then show ?thesis
    using assms by (simp add: maxFee_nonneg_eq)
qed

lemma maxFee_mono_buffer:
  assumes "0 \<le> e" "0 \<le> b" "b \<le> b'"
  shows "maxFee e b \<le> maxFee e b'"
proof -
  have "e * (10000 + b) \<le> e * (10000 + b')"
    using assms by (intro mult_left_mono) simp_all
  then have "(e * (10000 + b)) div 10000 \<le> (e * (10000 + b')) div 10000"
    by (rule zdiv_mono1) simp
  then show ?thesis
    using assms by (simp add: maxFee_nonneg_eq)
qed

lemma maxFee_zero_buffer: "maxFee e 0 = e"
proof -
  have "\<bar>e\<bar> * 10000 div 10000 = \<bar>e\<bar>" by simp
  then show ?thesis
    by (simp add: maxFee_def bigint_div_def abs_mult sgn_mult mult_sgn_abs)
qed

text \<open>
  Claim C4. For non-negative \<open>estimatedFee\<close> and \<open>bufferBps\<close> the fee ceiling
  \<open>estimatedFee * (10000 + bufferBps) / 10000\<close> (truncating bigint division) is monotonic
  non-decreasing in the estimated fee with the buffer fixed, monotonic non-decreasing in
  the buffer with the estimated fee fixed, and equal to the estimated fee when the buffer
  is zero.
\<close>

theorem maxFee_monotone_and_identity:
  "(0 \<le> e \<and> e \<le> e' \<and> 0 \<le> b \<longrightarrow> maxFee e b \<le> maxFee e' b) \<and>
   (0 \<le> e \<and> 0 \<le> b \<and> b \<le> b' \<longrightarrow> maxFee e b \<le> maxFee e b') \<and>
   maxFee e 0 = e"
  using maxFee_mono_fee [of e e' b] maxFee_mono_buffer [of e b b'] maxFee_zero_buffer [of e]
  by blast

theorem maxFee_monotone_and_identity_witness:
  "(0::int) \<le> 1999 \<and> (1999::int) \<le> 2001 \<and> (0::int) \<le> 2000 \<and> (2000::int) \<le> 2500 \<and>
   maxFee 1999 2000 \<le> maxFee 2001 2000 \<and>
   maxFee 1999 2000 \<le> maxFee 1999 2500 \<and>
   maxFee 1999 0 = 1999 \<and>
   maxFee 1999 2000 = 2398 \<and> maxFee 2001 2000 = 2401 \<and> maxFee 1999 2500 = 2498"
  using maxFee_monotone_and_identity [of 1999 2001 2000 2500]
  by (simp add: maxFee_def bigint_div_def)

section \<open>Properties of the signature codec\<close>

lemma isHexDigit_of_char:
  "isHexDigit c \<longleftrightarrow>
     (48 \<le> (of_char c :: nat) \<and> (of_char c :: nat) \<le> 57) \<or>
     (97 \<le> (of_char c :: nat) \<and> (of_char c :: nat) \<le> 102) \<or>
     (65 \<le> (of_char c :: nat) \<and> (of_char c :: nat) \<le> 70)"
  by (simp add: isHexDigit_def hexDigit_def Let_def)

lemma isHexDigit_not_special:
  assumes "isHexDigit c"
  shows "\<not> isWhiteSpace c" "c \<noteq> CHR ''+''" "c \<noteq> CHR ''-''" "c \<noteq> CHR ''x''" "c \<noteq> CHR ''X''"
  using assms by (auto simp: isHexDigit_of_char isWhiteSpace_def)

lemma digitValue_less_16: "digitValue c < 16"
  by (auto simp: digitValue_def hexDigit_def Let_def)

lemma parseInt16_two_digits:
  assumes "isHexDigit a" "isHexDigit b"
  shows "parseInt16 [a, b] = Num (int (16 * digitValue a + digitValue b))"
  using assms isHexDigit_not_special [OF assms(1)] isHexDigit_not_special [OF assms(2)]
  by (simp add: parseInt16_def hexValue_def)

lemma hex_bytes_take: "hex_bytes (take (2 * n) cs) = take n (hex_bytes cs)"
proof (induction n arbitrary: cs)
  case 0
  show ?case by simp
next
  case (Suc n)
  show ?case
    using Suc.IH by (cases cs rule: hex_bytes.cases) simp_all
qed

lemma hex_bytes_drop: "hex_bytes (drop (2 * n) cs) = drop n (hex_bytes cs)"
proof (induction n arbitrary: cs)
  case 0
  show ?case by simp
next
  case (Suc n)
  show ?case
    using Suc.IH by (cases cs rule: hex_bytes.cases) simp_all
qed

lemma length_hex_bytes: "length (hex_bytes cs) = length cs div 2"
  by (induction cs rule: hex_bytes.induct) simp_all

lemma hex_bytes_less_256: "x \<in> set (hex_bytes cs) \<Longrightarrow> x < 256"
proof (induction cs rule: hex_bytes.induct)
  case (1 a b cs)
  then show ?case
    using digitValue_less_16 [of a] digitValue_less_16 [of b] by auto
qed simp_all


lemma not_startsWith_0x:
  assumes "\<forall>c \<in> set raw. isHexDigit c"
  shows "\<not> startsWith raw ''0x''"
proof
  assume "startsWith raw ''0x''"
  then have "take 2 raw = ''0x''" by (simp add: startsWith_def numeral_2_eq_2)
  then have "CHR ''x'' \<in> set (take 2 raw)" by simp
  then have "CHR ''x'' \<in> set raw" by (rule in_set_takeD)
  with assms have "isHexDigit CHR ''x''" by blast
  then show False by (simp add: isHexDigit_of_char)
qed

lemma signature_raw_well_formed:
  assumes "\<forall>c \<in> set raw. isHexDigit c" "signature = raw \<or> signature = ''0x'' @ raw"
  shows "signature_raw signature = raw"
  using assms not_startsWith_0x [OF assms(1)] by (auto simp: signature_raw_def startsWith_def)

lemma drop_last_byte:
  assumes "length raw = 130"
  shows "drop 128 raw = [raw ! 128, raw ! 129]"
proof -
  have "drop 128 raw = raw ! 128 # drop (Suc 128) raw"
    using assms by (intro Cons_nth_drop_Suc [symmetric]) simp
  moreover have "drop 129 raw = raw ! 129 # drop (Suc 129) raw"
    using assms by (intro Cons_nth_drop_Suc [symmetric]) simp
  ultimately show ?thesis
    using assms by simp
qed

lemma slice_last_byte:
  assumes "length raw = 130"
  shows "slice raw 128 130 = [raw ! 128, raw ! 129]"
  by (simp add: slice_def drop_last_byte [OF assms])

lemma hex_bytes_last:
  assumes "length raw = 130"
  shows "hex_bytes raw ! 64 = 16 * digitValue (raw ! 128) + digitValue (raw ! 129)"
proof -
  have "hex_bytes (drop (2 * 64) raw) = drop 64 (hex_bytes raw)"
    by (rule hex_bytes_drop)
  then have "drop 64 (hex_bytes raw) = [16 * digitValue (raw ! 128) + digitValue (raw ! 129)]"
    by (simp add: drop_last_byte [OF assms])
  moreover have "hex_bytes raw ! 64 = hd (drop 64 (hex_bytes raw))"
    using assms by (simp add: hd_drop_conv_nth length_hex_bytes)
  ultimately show ?thesis by simp
qed

lemma hex_bytes_split:
  assumes "length raw = 130"
  shows "take 32 (hex_bytes raw) @ take 32 (drop 32 (hex_bytes raw)) @ [hex_bytes raw ! 64]
           = hex_bytes raw"
proof -
  have len: "length (hex_bytes raw) = 65"
    using assms by (simp add: length_hex_bytes)
  have "drop 64 (hex_bytes raw) = hex_bytes raw ! 64 # drop (Suc 64) (hex_bytes raw)"
    using len by (intro Cons_nth_drop_Suc [symmetric]) simp
  then have last: "drop 64 (hex_bytes raw) = [hex_bytes raw ! 64]"
    using len by simp
  have "take 32 (drop 32 (hex_bytes raw)) @ drop 64 (hex_bytes raw) = drop 32 (hex_bytes raw)"
    using append_take_drop_id [of 32 "drop 32 (hex_bytes raw)"] by simp
  then have "take 32 (hex_bytes raw) @ take 32 (drop 32 (hex_bytes raw)) @ drop 64 (hex_bytes raw)
      = hex_bytes raw"
    by simp
  then show ?thesis by (simp add: last)
qed


lemma splitSignature_fields:
  "sig_r (splitSignature signature) = ''0x'' @ take 64 (signature_raw signature)"
  "sig_s (splitSignature signature) = ''0x'' @ take 64 (drop 64 (signature_raw signature))"
  "sig_v (splitSignature signature) = parseInt16 (slice (signature_raw signature) 128 130)"
  by (simp_all add: splitSignature_def slice_def Let_def)

lemma parseInt16_empty: "parseInt16 [] = NaN"
  by (simp add: parseInt16_def)

text \<open>
  Claim C3. For every well-formed 65-byte signature, that is 130 hex characters with or
  without the prefix \<open>0x\<close>, \<open>splitSignature\<close> returns as \<open>r\<close> the bytes [0,32), as \<open>s\<close>
  the bytes [32,64) and as \<open>v\<close> the byte 64 read as an unsigned integer, whatever its
  value; and \<open>r ++ s ++ v\<close> is the original sequence of 65 bytes.
\<close>

theorem splitSignature_well_formed:
  assumes "length raw = 130" and "list_all isHexDigit raw"
    and "signature = raw \<or> signature = ''0x'' @ raw"
  shows "sig_r (splitSignature signature) = ''0x'' @ take 64 raw \<and>
         sig_s (splitSignature signature) = ''0x'' @ take 64 (drop 64 raw) \<and>
         sig_v (splitSignature signature) = Num (int (hex_bytes raw ! 64)) \<and>
         length (hex_bytes raw) = 65 \<and>
         hex_bytes (drop 2 (sig_r (splitSignature signature))) = take 32 (hex_bytes raw) \<and>
         hex_bytes (drop 2 (sig_s (splitSignature signature))) = take 32 (drop 32 (hex_bytes raw)) \<and>
         reassemble (splitSignature signature) = Some (hex_bytes raw)"
proof -
  have hexd: "\<forall>c \<in> set raw. isHexDigit c"
    using assms(2) by (simp add: list_all_iff)
  have raw: "signature_raw signature = raw"
    using hexd assms(3) by (rule signature_raw_well_formed)
  have r: "sig_r (splitSignature signature) = ''0x'' @ take 64 raw"
    and s: "sig_s (splitSignature signature) = ''0x'' @ take 64 (drop 64 raw)"
    by (simp_all add: splitSignature_fields raw)
  have "isHexDigit (raw ! 128)" "isHexDigit (raw ! 129)"
    using hexd assms(1) by simp_all
  then have "parseInt16 [raw ! 128, raw ! 129]
      = Num (int (16 * digitValue (raw ! 128) + digitValue (raw ! 129)))"
    by (rule parseInt16_two_digits)
  then have v: "sig_v (splitSignature signature) = Num (int (hex_bytes raw ! 64))"
    by (simp add: splitSignature_fields raw slice_last_byte [OF assms(1)]
        hex_bytes_last [OF assms(1)])
  have len: "length (hex_bytes raw) = 65"
    using assms(1) by (simp add: length_hex_bytes)
  have rb: "hex_bytes (drop 2 (sig_r (splitSignature signature))) = take 32 (hex_bytes raw)"
    using hex_bytes_take [of 32 raw] by (simp add: r)
  have "hex_bytes (take (2 * 32) (drop (2 * 32) raw)) = take 32 (drop 32 (hex_bytes raw))"
    by (simp only: hex_bytes_take hex_bytes_drop)
  then have sb: "hex_bytes (drop 2 (sig_s (splitSignature signature)))
      = take 32 (drop 32 (hex_bytes raw))"
    by (simp add: s)
  have "reassemble (splitSignature signature)
      = Some (take 32 (hex_bytes raw) @ take 32 (drop 32 (hex_bytes raw)) @ [hex_bytes raw ! 64])"
    by (simp add: reassemble_def v rb sb)
  then have "reassemble (splitSignature signature) = Some (hex_bytes raw)"
    by (simp only: hex_bytes_split [OF assms(1)])
  with r s v len rb sb show ?thesis by blast
qed

lemma example_raw_length: "length example_raw = 130"
  by code_simp

lemma example_raw_hex: "list_all isHexDigit example_raw"
  by code_simp

theorem splitSignature_well_formed_witness:
  "length example_raw = 130 \<and> list_all isHexDigit example_raw \<and>
   sig_r (splitSignature (''0x'' @ example_raw)) = ''0x'' @ take 64 example_raw \<and>
   sig_s (splitSignature (''0x'' @ example_raw)) = ''0x'' @ take 64 (drop 64 example_raw) \<and>
   sig_v (splitSignature (''0x'' @ example_raw)) = Num (int (hex_bytes example_raw ! 64)) \<and>
   sig_v (splitSignature (''0x'' @ example_raw)) = Num 255 \<and>
   sig_v (splitSignature example_raw) = Num 255 \<and>
   reassemble (splitSignature (''0x'' @ example_raw)) = Some (hex_bytes example_raw) \<and>
   reassemble (splitSignature example_raw) = Some (hex_bytes example_raw) \<and>
   hex_bytes example_raw = replicate 32 161 @ replicate 32 178 @ [255]"
proof -
  have v1: "sig_v (splitSignature (''0x'' @ example_raw)) = Num 255"
    by code_simp
  have v2: "sig_v (splitSignature example_raw) = Num 255"
    by code_simp
  have b: "hex_bytes example_raw = replicate 32 161 @ replicate 32 178 @ [255]"
    by code_simp
  show ?thesis
    using splitSignature_well_formed [OF example_raw_length example_raw_hex, of "''0x'' @ example_raw"]
      splitSignature_well_formed [OF example_raw_length example_raw_hex, of example_raw]
      example_raw_length example_raw_hex v1 v2 b
    by simp
qed

section \<open>Properties of the signature codec on JavaScript values\<close>

lemma length_units_0x: "length (units ''0x'') = 2"
  by (simp add: units_def)

lemma splitSignature_js_string:
  "splitSignature_js (JS_string cs) =
     Inr \<lparr>js_v = parseInt_units (take 2 (drop 128 (if take 2 cs = units ''0x'' then drop 2 cs else cs))),
          js_r = units ''0x'' @ take 64 (if take 2 cs = units ''0x'' then drop 2 cs else cs),
          js_s = units ''0x'' @ take 64 (drop 64 (if take 2 cs = units ''0x'' then drop 2 cs else cs))\<rparr>"
  by (simp add: splitSignature_js_def method_startsWith_def method_slice_def to_string_def
      length_units_0x)

lemma splitSignature_js_not_a_string:
  "splitSignature_js JS_undefined = Inl JS_TypeError"
  "splitSignature_js JS_null = Inl JS_TypeError"
  by (simp_all add: splitSignature_js_def method_startsWith_def)

lemma parseInt_units_empty: "parseInt_units [] = NaN"
  by (simp add: parseInt_units_def)

lemma isWhiteSpace_unit_of_char: "isWhiteSpace_unit (of_char c) = isWhiteSpace c"
proof -
  define u where "u = (of_char c :: nat)"
  have "u < 256" by (simp add: u_def)
  then have "isWhiteSpace_unit u \<longleftrightarrow> u \<in> {9, 10, 11, 12, 13, 32, 160}"
    by (auto simp: isWhiteSpace_unit_def)
  then show ?thesis
    by (simp add: u_def isWhiteSpace_def)
qed

lemma hexDigit_unit_of_char: "hexDigit_unit (of_char c) = hexDigit c"
  by (simp add: hexDigit_unit_def hexDigit_def Let_def)

lemma units_eq_iff: "units xs = units ys \<longleftrightarrow> xs = ys"
  unfolding units_def by (rule inj_map_eq_map) (rule inj_of_char)

lemma units_take: "take n (units xs) = units (take n xs)"
  and units_drop: "drop n (units xs) = units (drop n xs)"
  and units_append: "units xs @ units ys = units (xs @ ys)"
  by (simp_all add: units_def take_map drop_map)

lemma parseInt_units_units: "parseInt_units (units str) = parseInt16 str"
proof -
  have ws: "dropWhile isWhiteSpace_unit (units str) = units (dropWhile isWhiteSpace str)"
    by (simp add: units_def dropWhile_map comp_def isWhiteSpace_unit_of_char)
  have digits: "takeWhile (\<lambda>u. hexDigit_unit u \<noteq> None) (units zs) = units (takeWhile isHexDigit zs)"
    for zs
  proof -
    have "isHexDigit = (\<lambda>c. hexDigit c \<noteq> None)"
      by (rule ext) (simp add: isHexDigit_def)
    then show ?thesis
      by (simp add: units_def takeWhile_map comp_def hexDigit_unit_of_char)
  qed
  have val: "foldl (\<lambda>acc u. 16 * acc + (case hexDigit_unit u of Some d \<Rightarrow> d | None \<Rightarrow> 0)) 0
      (units zs) = hexValue zs" for zs
    by (simp add: units_def foldl_map hexValue_def digitValue_def hexDigit_unit_of_char)
  have empty: "units zs = [] \<longleftrightarrow> zs = []" for zs
    by (simp add: units_def)
  show ?thesis
    unfolding parseInt_units_def parseInt16_def ws Let_def
    by (simp add: units_take units_drop units_eq_iff digits val empty del: not_None_eq)
qed

lemma splitSignature_js_units:
  "splitSignature_js (JS_string (units signature)) =
     Inr \<lparr>js_v = sig_v (splitSignature signature),
          js_r = units (sig_r (splitSignature signature)),
          js_s = units (sig_s (splitSignature signature))\<rparr>"
proof -
  have raw: "(if take 2 (units signature) = units ''0x'' then drop 2 (units signature)
              else units signature) = units (signature_raw signature)"
    by (simp add: signature_raw_def startsWith_def units_take units_drop units_eq_iff
        numeral_2_eq_2)
  show ?thesis
    unfolding splitSignature_js_string raw
    by (simp add: splitSignature_def slice_def Let_def units_take units_drop units_append
        parseInt_units_units)
qed


text \<open>
  Claim C10. \<open>splitSignature\<close> is total on strings: for a string of any length and of any
  code units it returns a result and does not throw (on \<open>undefined\<close> or \<open>null\<close> it does
  throw). \<open>r\<close> and \<open>s\<close> are \<open>0x\<close> followed by what the prefix-stripped input has at the
  positions [0,64) and [64,128), so they are shortened when the input is, their bodies
  together being the first 128 code units that exist; and \<open>v\<close> is \<open>NaN\<close> when fewer than
  129 code units remain after the prefix.
\<close>

theorem splitSignature_js_total:
  "(let raw = (if take 2 cs = units ''0x'' then drop 2 cs else cs)
    in \<exists>res. splitSignature_js (JS_string cs) = Inr res \<and>
         js_r res = units ''0x'' @ take 64 raw \<and>
         js_s res = units ''0x'' @ take 64 (drop 64 raw) \<and>
         length (js_r res) = 2 + min 64 (length raw) \<and>
         length (js_s res) = 2 + min 64 (length raw - 64) \<and>
         drop 2 (js_r res) @ drop 2 (js_s res) = take 128 raw \<and>
         (length raw < 129 \<longrightarrow> js_v res = NaN))"
proof -
  define raw where "raw = (if take 2 cs = units ''0x'' then drop 2 cs else cs)"
  define res where "res = \<lparr>js_v = parseInt_units (take 2 (drop 128 raw)),
          js_r = units ''0x'' @ take 64 raw,
          js_s = units ''0x'' @ take 64 (drop 64 raw)\<rparr>"
  have run: "splitSignature_js (JS_string cs) = Inr res"
    unfolding res_def raw_def by (rule splitSignature_js_string)
  have r: "js_r res = units ''0x'' @ take 64 raw"
    and s: "js_s res = units ''0x'' @ take 64 (drop 64 raw)"
    by (simp_all add: res_def)
  have lr: "length (js_r res) = 2 + min 64 (length raw)"
    and ls: "length (js_s res) = 2 + min 64 (length raw - 64)"
    by (simp_all add: r s length_units_0x min.commute)
  have "take 64 raw @ take 64 (drop 64 raw) = take (64 + 64) raw"
    by (simp only: take_add)
  then have bodies: "drop 2 (js_r res) @ drop 2 (js_s res) = take 128 raw"
    by (simp add: r s length_units_0x)
  have v: "length raw < 129 \<longrightarrow> js_v res = NaN"
    by (simp add: res_def parseInt_units_empty)
  from run r s lr ls bodies v show ?thesis
    unfolding Let_def raw_def [symmetric] by blast
qed



lemma splitSignature_js_example:
  "splitSignature_js (JS_string [48, 120, 8364, 55357, 56832]) =
     Inr \<lparr>js_v = NaN, js_r = [48, 120, 8364, 55357, 56832], js_s = [48, 120]\<rparr>"
  "splitSignature_js (JS_string []) = Inr \<lparr>js_v = NaN, js_r = [48, 120], js_s = [48, 120]\<rparr>"
  by (simp_all add: splitSignature_js_string units_def parseInt_units_empty)

theorem splitSignature_js_total_witness:
  "take 2 [48, 120, 8364, 55357, 56832] = units ''0x'' \<and>
   length (drop 2 [48, 120, 8364, 55357, 56832 :: nat]) < 129 \<and>
   (\<exists>res. splitSignature_js (JS_string [48, 120, 8364, 55357, 56832]) = Inr res \<and>
      js_v res = NaN) \<and>
   splitSignature_js (JS_string [48, 120, 8364, 55357, 56832]) =
     Inr \<lparr>js_v = NaN, js_r = [48, 120, 8364, 55357, 56832], js_s = [48, 120]\<rparr> \<and>
   splitSignature_js (JS_string []) = Inr \<lparr>js_v = NaN, js_r = [48, 120], js_s = [48, 120]\<rparr> \<and>
   splitSignature_js JS_undefined = Inl JS_TypeError \<and>
   splitSignature_js JS_null = Inl JS_TypeError"
proof -
  have prefixed: "take 2 [48, 120, 8364, 55357, 56832] = units ''0x''"
    by (simp add: units_def)
  have short: "length (drop 2 [48, 120, 8364, 55357, 56832 :: nat]) < 129"
    by simp
  have "\<exists>res. splitSignature_js (JS_string [48, 120, 8364, 55357, 56832]) = Inr res \<and>
      js_v res = NaN"
    using splitSignature_js_total [of "[48, 120, 8364, 55357, 56832]"] prefixed short
    by (auto simp: Let_def)
  with prefixed short splitSignature_js_example splitSignature_js_not_a_string
  show ?thesis by (intro conjI)
qed

section \<open>Properties of the permit builder\<close>

lemma first_rejection_None:
  "first_rejection rejected order = None \<longleftrightarrow> (\<forall>i \<in> set order. rejected i = None)"
  by (induction order) (auto split: option.splits)

lemma first_rejection_Some:
  "first_rejection rejected order = Some err \<Longrightarrow> \<exists>i \<in> set order. rejected i = Some err"
  by (induction order) (auto split: option.splits)

lemma rejection_simps:
  "rejection (Inl err) = Some err" "rejection (Inr x) = None"
  by (simp_all add: rejection_def)

lemma readTokenVersion_fallback:
  "read_version client token = Inl err \<Longrightarrow> readTokenVersion client token = ''1''"
  by (simp add: readTokenVersion_def)

lemma readPermitMetadata_success:
  assumes "read_name client token = Inr n" "read_decimals client token = Inr d"
    "read_nonces client token owner = Inr k"
  shows "readPermitMetadata client token owner =
    Inr \<lparr>meta_name = n, meta_version = readTokenVersion client token,
         meta_decimals = d, meta_nonce = k\<rparr>"
proof -
  have "first_rejection
          (\<lambda>i. case i of ReadName \<Rightarrow> rejection (Inr n :: 'a + string) | ReadVersion \<Rightarrow> None
                | ReadDecimals \<Rightarrow> rejection (Inr d :: 'a + nat)
                | ReadNonces \<Rightarrow> rejection (Inr k :: 'a + int))
          (settle_order client) = None"
    by (simp add: first_rejection_None rejection_simps split: read_id.split)
  then show ?thesis
    using assms by (simp add: readPermitMetadata_def)
qed

lemma readPermitMetadata_Inr:
  assumes "readPermitMetadata client token owner = Inr meta"
  shows "read_name client token = Inr (meta_name meta) \<and>
         meta_version meta = readTokenVersion client token \<and>
         read_decimals client token = Inr (meta_decimals meta) \<and>
         read_nonces client token owner = Inr (meta_nonce meta)"
  using assms
  by (auto simp: readPermitMetadata_def Let_def split: option.splits sum.splits)

lemma readPermitMetadata_failure:
  assumes "isl (read_name client token) \<or> isl (read_decimals client token) \<or>
           isl (read_nonces client token owner)"
  shows "\<exists>err. readPermitMetadata client token owner = Inl err \<and>
           (read_name client token = Inl err \<or> read_decimals client token = Inl err \<or>
            read_nonces client token owner = Inl err)"
proof (cases "readPermitMetadata client token owner")
  case (Inr meta)
  from readPermitMetadata_Inr [OF this] assms show ?thesis by auto
next
  case (Inl err)
  then have "read_name client token = Inl err \<or> read_decimals client token = Inl err \<or>
            read_nonces client token owner = Inl err"
    by (auto simp: readPermitMetadata_def Let_def rejection_def
        split: option.splits sum.splits read_id.splits dest!: first_rejection_Some)
  with Inl show ?thesis by blast
qed


lemma buildPermitSignature_signed:
  assumes "readPermitMetadata client (p_token params) (p_owner params) = Inr meta"
    and "parseUnits (p_amountInput params) (meta_decimals meta) = Inr amount"
    and "signer (permit_request meta (p_chainId params) (p_token params) (p_owner params)
           (p_spender params) amount (p_permitDeadline params)) = Inr sg"
  shows "buildPermitSignature client parseUnits signer params =
    (Inr \<lparr>res_amount = amount, res_v = sig_v (splitSignature sg),
          res_r = sig_r (splitSignature sg), res_s = sig_s (splitSignature sg),
          res_decimals = meta_decimals meta\<rparr>,
     [permit_request meta (p_chainId params) (p_token params) (p_owner params)
        (p_spender params) amount (p_permitDeadline params)])"
  using assms by (simp add: buildPermitSignature_def Let_def)

lemma buildPermitSignature_signer_fails:
  assumes "readPermitMetadata client (p_token params) (p_owner params) = Inr meta"
    and "parseUnits (p_amountInput params) (meta_decimals meta) = Inr amount"
    and "signer (permit_request meta (p_chainId params) (p_token params) (p_owner params)
           (p_spender params) amount (p_permitDeadline params)) = Inl err"
  shows "buildPermitSignature client parseUnits signer params =
    (Inl err,
     [permit_request meta (p_chainId params) (p_token params) (p_owner params)
        (p_spender params) amount (p_permitDeadline params)])"
  using assms by (simp add: buildPermitSignature_def Let_def)

lemma buildPermitSignature_parse_fails:
  assumes "readPermitMetadata client (p_token params) (p_owner params) = Inr meta"
    and "parseUnits (p_amountInput params) (meta_decimals meta) = Inl err"
  shows "buildPermitSignature client parseUnits signer params = (Inl err, [])"
  using assms by (simp add: buildPermitSignature_def)

lemma buildPermitSignature_read_fails:
  assumes "readPermitMetadata client (p_token params) (p_owner params) = Inl err"
  shows "buildPermitSignature client parseUnits signer params = (Inl err, [])"
  using assms by (simp add: buildPermitSignature_def)

lemma buildPermitSignature_frontend_signed:
  assumes "readPermitMetadata client (fp_token params) (fp_owner params) = Inr meta"
    and "walletSign (fp_owner params)
          (permit_request meta (fp_chainId params) (fp_token params) (fp_owner params)
           (fp_spender params) (fp_amount params) (fp_permitDeadline params)) = Inr sg"
  shows "buildPermitSignature_frontend client walletSign params =
    (Inr \<lparr>res_amount = fp_amount params, res_v = sig_v (splitSignature sg),
          res_r = sig_r (splitSignature sg), res_s = sig_s (splitSignature sg),
          res_decimals = meta_decimals meta\<rparr>,
     [permit_request meta (fp_chainId params) (fp_token params) (fp_owner params)
        (fp_spender params) (fp_amount params) (fp_permitDeadline params)])"
  using assms by (simp add: buildPermitSignature_frontend_def Let_def)

lemma buildPermitSignature_frontend_signer_fails:
  assumes "readPermitMetadata client (fp_token params) (fp_owner params) = Inr meta"
    and "walletSign (fp_owner params)
          (permit_request meta (fp_chainId params) (fp_token params) (fp_owner params)
           (fp_spender params) (fp_amount params) (fp_permitDeadline params)) = Inl err"
  shows "buildPermitSignature_frontend client walletSign params =
    (Inl err,
     [permit_request meta (fp_chainId params) (fp_token params) (fp_owner params)
        (fp_spender params) (fp_amount params) (fp_permitDeadline params)])"
  using assms by (simp add: buildPermitSignature_frontend_def Let_def)

lemma buildPermitSignature_frontend_read_fails:
  assumes "readPermitMetadata client (fp_token params) (fp_owner params) = Inl err"
  shows "buildPermitSignature_frontend client walletSign params = (Inl err, [])"
  using assms by (simp add: buildPermitSignature_frontend_def)

lemma buildPermitSignature_Inr:
  assumes "buildPermitSignature client parseUnits signer params = (Inr res, requests)"
  shows "\<exists>meta amount sg.
     readPermitMetadata client (p_token params) (p_owner params) = Inr meta \<and>
     parseUnits (p_amountInput params) (meta_decimals meta) = Inr amount \<and>
     requests = [permit_request meta (p_chainId params) (p_token params) (p_owner params)
        (p_spender params) amount (p_permitDeadline params)] \<and>
     signer (permit_request meta (p_chainId params) (p_token params) (p_owner params)
        (p_spender params) amount (p_permitDeadline params)) = Inr sg \<and>
     res = \<lparr>res_amount = amount, res_v = sig_v (splitSignature sg),
          res_r = sig_r (splitSignature sg), res_s = sig_s (splitSignature sg),
          res_decimals = meta_decimals meta\<rparr>"
  using assms
  by (auto simp: buildPermitSignature_def Let_def split: sum.splits)

text \<open>
  Claim C6. For every successful run of \<open>buildPermitSignature\<close>, the signer received one
  typed-data request: its domain is the name and version read from the token in that
  run, the chain id and the token as verifying contract; its primary type is \<open>Permit\<close>,
  whose fields are, in order, owner, spender, value, nonce and deadline; and the nonce of
  its message is the nonce read for the owner in that run.
\<close>

theorem buildPermitSignature_payload:
  assumes "buildPermitSignature client parseUnits signer params = (Inr res, requests)"
  shows "\<exists>request decimals sg.
     requests = [request] \<and>
     read_name client (p_token params) = Inr (domain_name (td_domain request)) \<and>
     domain_version (td_domain request) = readTokenVersion client (p_token params) \<and>
     domain_chainId (td_domain request) = p_chainId params \<and>
     verifyingContract (td_domain request) = p_token params \<and>
     td_primaryType request = ''Permit'' \<and>
     td_types request =
       [(''Permit'', [(''owner'', ''address''), (''spender'', ''address''),
          (''value'', ''uint256''), (''nonce'', ''uint256''), (''deadline'', ''uint256'')])] \<and>
     msg_owner (td_message request) = p_owner params \<and>
     msg_spender (td_message request) = p_spender params \<and>
     read_decimals client (p_token params) = Inr decimals \<and>
     parseUnits (p_amountInput params) decimals = Inr (msg_value (td_message request)) \<and>
     read_nonces client (p_token params) (p_owner params) = Inr (msg_nonce (td_message request)) \<and>
     msg_deadline (td_message request) = p_permitDeadline params \<and>
     signer request = Inr sg \<and>
     res = \<lparr>res_amount = msg_value (td_message request), res_v = sig_v (splitSignature sg),
            res_r = sig_r (splitSignature sg), res_s = sig_s (splitSignature sg),
            res_decimals = decimals\<rparr>"
proof -
  from buildPermitSignature_Inr [OF assms] obtain meta amount sg where
    meta: "readPermitMetadata client (p_token params) (p_owner params) = Inr meta"
    and amount: "parseUnits (p_amountInput params) (meta_decimals meta) = Inr amount"
    and requests: "requests = [permit_request meta (p_chainId params) (p_token params)
        (p_owner params) (p_spender params) amount (p_permitDeadline params)]"
    and sg: "signer (permit_request meta (p_chainId params) (p_token params) (p_owner params)
        (p_spender params) amount (p_permitDeadline params)) = Inr sg"
    and res: "res = \<lparr>res_amount = amount, res_v = sig_v (splitSignature sg),
          res_r = sig_r (splitSignature sg), res_s = sig_s (splitSignature sg),
          res_decimals = meta_decimals meta\<rparr>"
    by blast
  let ?request = "permit_request meta (p_chainId params) (p_token params)
        (p_owner params) (p_spender params) amount (p_permitDeadline params)"
  note reads = readPermitMetadata_Inr [OF meta]
  have "requests = [?request]" by (fact requests)
  moreover have "read_name client (p_token params) = Inr (domain_name (td_domain ?request))"
    using reads by (simp add: permit_request_def)
  moreover have "domain_version (td_domain ?request) = readTokenVersion client (p_token params)"
    using reads by (simp add: permit_request_def)
  moreover have "domain_chainId (td_domain ?request) = p_chainId params"
    "verifyingContract (td_domain ?request) = p_token params"
    "td_primaryType ?request = ''Permit''"
    "msg_owner (td_message ?request) = p_owner params"
    "msg_spender (td_message ?request) = p_spender params"
    "msg_deadline (td_message ?request) = p_permitDeadline params"
    by (simp_all add: permit_request_def)
  moreover have "td_types ?request =
       [(''Permit'', [(''owner'', ''address''), (''spender'', ''address''),
          (''value'', ''uint256''), (''nonce'', ''uint256''), (''deadline'', ''uint256'')])]"
    by (simp add: permit_request_def PERMIT_TYPES_def)
  moreover have "read_decimals client (p_token params) = Inr (meta_decimals meta)"
    using reads by simp
  moreover have "parseUnits (p_amountInput params) (meta_decimals meta)
      = Inr (msg_value (td_message ?request))"
    using amount by (simp add: permit_request_def)
  moreover have "read_nonces client (p_token params) (p_owner params)
      = Inr (msg_nonce (td_message ?request))"
    using reads by (simp add: permit_request_def)
  moreover have "signer ?request = Inr sg" by (fact sg)
  moreover have "res = \<lparr>res_amount = msg_value (td_message ?request),
            res_v = sig_v (splitSignature sg),
            res_r = sig_r (splitSignature sg), res_s = sig_s (splitSignature sg),
            res_decimals = meta_decimals meta\<rparr>"
    using res by (simp add: permit_request_def)
  ultimately show ?thesis by blast
qed


lemma example_run:
  "buildPermitSignature example_client example_parseUnits example_signer example_params =
     (Inr \<lparr>res_amount = 100000000, res_v = Num 255, res_r = ''0x'' @ take 64 example_raw,
           res_s = ''0x'' @ take 64 (drop 64 example_raw), res_decimals = 6\<rparr>,
      [example_request])"
  by code_simp

theorem buildPermitSignature_payload_witness:
  "buildPermitSignature example_client example_parseUnits example_signer example_params =
     (Inr \<lparr>res_amount = 100000000, res_v = Num 255, res_r = ''0x'' @ take 64 example_raw,
           res_s = ''0x'' @ take 64 (drop 64 example_raw), res_decimals = 6\<rparr>,
      [example_request]) \<and>
   read_name example_client (p_token example_params) =
     Inr (domain_name (td_domain example_request)) \<and>
   domain_version (td_domain example_request) =
     readTokenVersion example_client (p_token example_params) \<and>
   read_nonces example_client (p_token example_params) (p_owner example_params) =
     Inr (msg_nonce (td_message example_request)) \<and>
   msg_nonce (td_message example_request) = 7 \<and>
   td_primaryType example_request = ''Permit'' \<and>
   map fst (snd (hd (td_types example_request))) =
     [''owner'', ''spender'', ''value'', ''nonce'', ''deadline'']"
proof -
  have "msg_nonce (td_message example_request) = 7"
    by (simp add: example_request_def permit_request_def)
  then show ?thesis
    using buildPermitSignature_payload [OF example_run] example_run by auto
qed


lemma buildPermitSignature_asked:
  assumes "readPermitMetadata client (p_token params) (p_owner params) = Inr meta"
    and "snd (buildPermitSignature client parseUnits signer params) = [asked]"
  shows "\<exists>amount. parseUnits (p_amountInput params) (meta_decimals meta) = Inr amount \<and>
     asked = permit_request meta (p_chainId params) (p_token params) (p_owner params)
        (p_spender params) amount (p_permitDeadline params)"
  using assms
  by (auto simp: buildPermitSignature_def Let_def split: sum.splits)

text \<open>
  Claim C7. If the token's \<open>version()\<close> read fails, \<open>readTokenVersion\<close> returns \<open>"1"\<close>
  rather than failing, metadata reading succeeds with that version when the other three
  reads succeed, and the EIP-712 domain uses version \<open>"1"\<close>. Permit construction then
  succeeds when the other reads and the signing succeed: in a run in which the signer is
  asked and returns a signature, and likewise whenever the amount reaches the signer and
  the signer returns a signature for the request. A failure of the name, decimals or
  nonces read, or of the signer, propagates as the failure of the construction. This
  holds for the command-line builder and for the front end's builder.
\<close>

theorem version_read_failure_defaults:
  assumes "read_version client (p_token params) = Inl verr"
  shows
   "readTokenVersion client (p_token params) = ''1'' \<and>
    (let token = p_token params;
         owner = p_owner params;
         meta = \<lparr>meta_name = n, meta_version = ''1'', meta_decimals = d, meta_nonce = k\<rparr>;
         request = permit_request meta (p_chainId params) token owner (p_spender params) amount
                     (p_permitDeadline params);
         frequest = permit_request meta (fp_chainId fparams) token owner (fp_spender fparams)
                     (fp_amount fparams) (fp_permitDeadline fparams);
         reads_ok = (read_name client token = Inr n \<and> read_decimals client token = Inr d \<and>
                     read_nonces client token owner = Inr k);
         same = (fp_token fparams = token \<and> fp_owner fparams = owner);
         run = buildPermitSignature client parseUnits signer params
     in domain_version (td_domain request) = ''1'' \<and>
        domain_version (td_domain frequest) = ''1'' \<and>
        (reads_ok \<longrightarrow> readPermitMetadata client token owner = Inr meta) \<and>
        (reads_ok \<and> snd run = [asked] \<and> signer asked = Inr sg \<longrightarrow>
           domain_version (td_domain asked) = ''1'' \<and>
           domain_name (td_domain asked) = n \<and>
           msg_nonce (td_message asked) = k \<and>
           fst run =
             Inr \<lparr>res_amount = msg_value (td_message asked), res_v = sig_v (splitSignature sg),
                  res_r = sig_r (splitSignature sg), res_s = sig_s (splitSignature sg),
                  res_decimals = d\<rparr>) \<and>
        (reads_ok \<and> snd run = [asked] \<and> signer asked = Inl err \<longrightarrow> fst run = Inl err) \<and>
        (reads_ok \<and> parseUnits (p_amountInput params) d = Inr amount \<and> signer request = Inr sg \<longrightarrow>
           run =
             (Inr \<lparr>res_amount = amount, res_v = sig_v (splitSignature sg),
                   res_r = sig_r (splitSignature sg), res_s = sig_s (splitSignature sg),
                   res_decimals = d\<rparr>, [request])) \<and>
        (reads_ok \<and> parseUnits (p_amountInput params) d = Inr amount \<and> signer request = Inl err \<longrightarrow>
           run = (Inl err, [request])) \<and>
        (same \<and> reads_ok \<and> walletSign owner frequest = Inr sg \<longrightarrow>
           buildPermitSignature_frontend client walletSign fparams =
             (Inr \<lparr>res_amount = fp_amount fparams, res_v = sig_v (splitSignature sg),
                   res_r = sig_r (splitSignature sg), res_s = sig_s (splitSignature sg),
                   res_decimals = d\<rparr>, [frequest])) \<and>
        (same \<and> reads_ok \<and> walletSign owner frequest = Inl err \<longrightarrow>
           buildPermitSignature_frontend client walletSign fparams = (Inl err, [frequest])) \<and>
        (isl (read_name client token) \<or> isl (read_decimals client token) \<or>
         isl (read_nonces client token owner) \<longrightarrow>
           (\<exists>e. (read_name client token = Inl e \<or> read_decimals client token = Inl e \<or>
                 read_nonces client token owner = Inl e) \<and>
                readPermitMetadata client token owner = Inl e \<and>
                run = (Inl e, []) \<and>
                (same \<longrightarrow> buildPermitSignature_frontend client walletSign fparams = (Inl e, [])))))"
proof -
  let ?token = "p_token params" and ?owner = "p_owner params"
  let ?meta = "\<lparr>meta_name = n, meta_version = ''1'', meta_decimals = d, meta_nonce = k\<rparr>"
  let ?request = "permit_request ?meta (p_chainId params) ?token ?owner (p_spender params) amount
                     (p_permitDeadline params)"
  let ?frequest = "permit_request ?meta (fp_chainId fparams) ?token ?owner (fp_spender fparams)
                     (fp_amount fparams) (fp_permitDeadline fparams)"
  let ?reads_ok = "read_name client ?token = Inr n \<and> read_decimals client ?token = Inr d \<and>
                     read_nonces client ?token ?owner = Inr k"
  let ?same = "fp_token fparams = ?token \<and> fp_owner fparams = ?owner"
  let ?run = "buildPermitSignature client parseUnits signer params"
  have version: "readTokenVersion client ?token = ''1''"
    using assms by (rule readTokenVersion_fallback)
  have meta: "readPermitMetadata client ?token ?owner = Inr ?meta" if ?reads_ok
    using that readPermitMetadata_success [of client ?token n d ?owner k]
    by (simp add: version)
  have c1: "domain_version (td_domain ?request) = ''1''"
    and c2: "domain_version (td_domain ?frequest) = ''1''"
    by (simp_all add: permit_request_def)
  have c3: "?reads_ok \<longrightarrow> readPermitMetadata client ?token ?owner = Inr ?meta"
    using meta by blast
  have c4: "?reads_ok \<and> parseUnits (p_amountInput params) d = Inr amount \<and> signer ?request = Inr sg \<longrightarrow>
           ?run =
             (Inr \<lparr>res_amount = amount, res_v = sig_v (splitSignature sg),
                   res_r = sig_r (splitSignature sg), res_s = sig_s (splitSignature sg),
                   res_decimals = d\<rparr>, [?request])"
    using buildPermitSignature_signed [of client params ?meta parseUnits amount signer sg] meta
    by simp
  have c5: "?reads_ok \<and> parseUnits (p_amountInput params) d = Inr amount \<and> signer ?request = Inl err \<longrightarrow>
           ?run = (Inl err, [?request])"
    using buildPermitSignature_signer_fails [of client params ?meta parseUnits amount signer err] meta
    by simp
  have asked: "\<exists>a. parseUnits (p_amountInput params) d = Inr a \<and>
      asked = permit_request ?meta (p_chainId params) ?token ?owner (p_spender params) a
                (p_permitDeadline params)"
    if "?reads_ok" and "snd ?run = [asked]"
    using buildPermitSignature_asked [OF meta [OF that(1)] that(2)] by simp
  have r1: "?reads_ok \<and> snd ?run = [asked] \<and> signer asked = Inr sg \<longrightarrow>
           domain_version (td_domain asked) = ''1'' \<and>
           domain_name (td_domain asked) = n \<and>
           msg_nonce (td_message asked) = k \<and>
           fst ?run =
             Inr \<lparr>res_amount = msg_value (td_message asked), res_v = sig_v (splitSignature sg),
                  res_r = sig_r (splitSignature sg), res_s = sig_s (splitSignature sg),
                  res_decimals = d\<rparr>"
  proof
    assume a: "?reads_ok \<and> snd ?run = [asked] \<and> signer asked = Inr sg"
    then obtain a' where parsed: "parseUnits (p_amountInput params) d = Inr a'"
      and req: "asked = permit_request ?meta (p_chainId params) ?token ?owner (p_spender params) a'
                (p_permitDeadline params)"
      using asked by blast
    have "?run = (Inr \<lparr>res_amount = a', res_v = sig_v (splitSignature sg),
                   res_r = sig_r (splitSignature sg), res_s = sig_s (splitSignature sg),
                   res_decimals = d\<rparr>, [asked])"
      using buildPermitSignature_signed [of client params ?meta parseUnits a' signer sg]
        meta a parsed req by simp
    then show "domain_version (td_domain asked) = ''1'' \<and>
           domain_name (td_domain asked) = n \<and>
           msg_nonce (td_message asked) = k \<and>
           fst ?run =
             Inr \<lparr>res_amount = msg_value (td_message asked), res_v = sig_v (splitSignature sg),
                  res_r = sig_r (splitSignature sg), res_s = sig_s (splitSignature sg),
                  res_decimals = d\<rparr>"
      by (simp add: req permit_request_def)
  qed
  have r2: "?reads_ok \<and> snd ?run = [asked] \<and> signer asked = Inl err \<longrightarrow> fst ?run = Inl err"
  proof
    assume a: "?reads_ok \<and> snd ?run = [asked] \<and> signer asked = Inl err"
    then obtain a' where parsed: "parseUnits (p_amountInput params) d = Inr a'"
      and req: "asked = permit_request ?meta (p_chainId params) ?token ?owner (p_spender params) a'
                (p_permitDeadline params)"
      using asked by blast
    have "?run = (Inl err, [asked])"
      using buildPermitSignature_signer_fails [of client params ?meta parseUnits a' signer err]
        meta a parsed req by simp
    then show "fst ?run = Inl err" by simp
  qed
  have c7: "?same \<and> ?reads_ok \<and> walletSign ?owner ?frequest = Inr sg \<longrightarrow>
           buildPermitSignature_frontend client walletSign fparams =
             (Inr \<lparr>res_amount = fp_amount fparams, res_v = sig_v (splitSignature sg),
                   res_r = sig_r (splitSignature sg), res_s = sig_s (splitSignature sg),
                   res_decimals = d\<rparr>, [?frequest])"
    using buildPermitSignature_frontend_signed [of client fparams ?meta walletSign sg] meta
    by simp
  have c8: "?same \<and> ?reads_ok \<and> walletSign ?owner ?frequest = Inl err \<longrightarrow>
           buildPermitSignature_frontend client walletSign fparams = (Inl err, [?frequest])"
    using buildPermitSignature_frontend_signer_fails [of client fparams ?meta walletSign err] meta
    by simp
  have c9: "isl (read_name client ?token) \<or> isl (read_decimals client ?token) \<or>
         isl (read_nonces client ?token ?owner) \<longrightarrow>
           (\<exists>e. (read_name client ?token = Inl e \<or> read_decimals client ?token = Inl e \<or>
                 read_nonces client ?token ?owner = Inl e) \<and>
                readPermitMetadata client ?token ?owner = Inl e \<and>
                ?run = (Inl e, []) \<and>
                (?same \<longrightarrow> buildPermitSignature_frontend client walletSign fparams = (Inl e, [])))"
  proof
    assume "isl (read_name client ?token) \<or> isl (read_decimals client ?token) \<or>
         isl (read_nonces client ?token ?owner)"
    from readPermitMetadata_failure [OF this] obtain e where
      e: "readPermitMetadata client ?token ?owner = Inl e"
      and which: "read_name client ?token = Inl e \<or> read_decimals client ?token = Inl e \<or>
            read_nonces client ?token ?owner = Inl e"
      by blast
    have "?run = (Inl e, [])"
      using e by (rule buildPermitSignature_read_fails)
    moreover have "?same \<longrightarrow> buildPermitSignature_frontend client walletSign fparams = (Inl e, [])"
      using e buildPermitSignature_frontend_read_fails [of client fparams e walletSign] by simp
    ultimately show "\<exists>e. (read_name client ?token = Inl e \<or> read_decimals client ?token = Inl e \<or>
                 read_nonces client ?token ?owner = Inl e) \<and>
                readPermitMetadata client ?token ?owner = Inl e \<and>
                ?run = (Inl e, []) \<and>
                (?same \<longrightarrow> buildPermitSignature_frontend client walletSign fparams = (Inl e, []))"
      using e which by blast
  qed
  show ?thesis
    unfolding Let_def
    using version c1 c2 c3 r1 r2 c4 c5 c7 c8 c9 by blast
qed

lemma example_reads:
  "read_version example_client (p_token example_params) = Inl ''execution reverted''"
  "read_name example_client (p_token example_params) = Inr ''USD Coin''"
  "read_decimals example_client (p_token example_params) = Inr 6"
  "read_nonces example_client (p_token example_params) (p_owner example_params) = Inr 7"
  by (simp_all add: example_client_def)

lemma example_frontend_run:
  "buildPermitSignature_frontend example_client example_wallet_sign example_frontend_params =
     (Inr \<lparr>res_amount = 100000000, res_v = Num 255, res_r = ''0x'' @ take 64 example_raw,
           res_s = ''0x'' @ take 64 (drop 64 example_raw), res_decimals = 6\<rparr>,
      [example_request])"
  by code_simp

lemma example_rejected_run:
  "buildPermitSignature example_client example_parseUnits (\<lambda>request. Inl ''User rejected'')
     example_params = (Inl ''User rejected'', [example_request])"
  by code_simp

lemma example_read_failure_run:
  "buildPermitSignature (example_client\<lparr>read_decimals := (\<lambda>token. Inl ''timeout'')\<rparr>)
     example_parseUnits example_signer example_params = (Inl ''timeout'', [])"
  by code_simp

theorem version_read_failure_defaults_witness:
  "read_version example_client (p_token example_params) = Inl ''execution reverted'' \<and>
   read_name example_client (p_token example_params) = Inr ''USD Coin'' \<and>
   read_decimals example_client (p_token example_params) = Inr 6 \<and>
   read_nonces example_client (p_token example_params) (p_owner example_params) = Inr 7 \<and>
   snd (buildPermitSignature example_client example_parseUnits example_signer example_params) =
     [example_request] \<and>
   example_signer example_request = Inr (''0x'' @ example_raw) \<and>
   readTokenVersion example_client (p_token example_params) = ''1'' \<and>
   readPermitMetadata example_client (p_token example_params) (p_owner example_params) =
     Inr \<lparr>meta_name = ''USD Coin'', meta_version = ''1'', meta_decimals = 6, meta_nonce = 7\<rparr> \<and>
   domain_version (td_domain example_request) = ''1'' \<and>
   fst (buildPermitSignature example_client example_parseUnits example_signer example_params) =
     Inr \<lparr>res_amount = msg_value (td_message example_request),
          res_v = sig_v (splitSignature (''0x'' @ example_raw)),
          res_r = sig_r (splitSignature (''0x'' @ example_raw)),
          res_s = sig_s (splitSignature (''0x'' @ example_raw)), res_decimals = 6\<rparr> \<and>
   buildPermitSignature_frontend example_client example_wallet_sign example_frontend_params =
     (Inr \<lparr>res_amount = 100000000, res_v = Num 255, res_r = ''0x'' @ take 64 example_raw,
           res_s = ''0x'' @ take 64 (drop 64 example_raw), res_decimals = 6\<rparr>,
      [example_request]) \<and>
   buildPermitSignature example_client example_parseUnits (\<lambda>request. Inl ''User rejected'')
     example_params = (Inl ''User rejected'', [example_request]) \<and>
   buildPermitSignature (example_client\<lparr>read_decimals := (\<lambda>token. Inl ''timeout'')\<rparr>)
     example_parseUnits example_signer example_params = (Inl ''timeout'', [])"
proof -
  have asked: "snd (buildPermitSignature example_client example_parseUnits example_signer
      example_params) = [example_request]"
    by (simp add: example_run)
  have signed: "example_signer example_request = Inr (''0x'' @ example_raw)"
    by (simp add: example_signer_def)
  note inst = version_read_failure_defaults [OF example_reads(1),
        of "''USD Coin''" 6 7 100000000 example_frontend_params example_parseUnits
           example_signer example_request "''0x'' @ example_raw" "''none''" example_wallet_sign,
        unfolded Let_def]
  have version: "readTokenVersion example_client (p_token example_params) = ''1''"
    using inst by (rule conjunct1)
  have meta: "readPermitMetadata example_client (p_token example_params) (p_owner example_params) =
     Inr \<lparr>meta_name = ''USD Coin'', meta_version = ''1'', meta_decimals = 6, meta_nonce = 7\<rparr>"
    using inst example_reads(2,3,4) by blast
  have run: "fst (buildPermitSignature example_client example_parseUnits example_signer
      example_params) =
     Inr \<lparr>res_amount = msg_value (td_message example_request),
          res_v = sig_v (splitSignature (''0x'' @ example_raw)),
          res_r = sig_r (splitSignature (''0x'' @ example_raw)),
          res_s = sig_s (splitSignature (''0x'' @ example_raw)), res_decimals = 6\<rparr>"
    and domain: "domain_version (td_domain example_request) = ''1''"
    using inst example_reads(2,3,4) asked signed by blast+
  from example_reads asked signed version meta domain run example_frontend_run
    example_rejected_run example_read_failure_run
  show ?thesis by (intro conjI)
qed

section \<open>Responses of an operation\<close>

lemma response_0: "response fn st 0 = fst (fn st)"
  by (simp add: response_def)

lemma response_Suc: "response fn st (Suc j) = response fn (snd (fn st)) j"
  by (simp add: response_def)

section \<open>Properties of the retry wrapper\<close>

lemma log_throws_simps:
  "log_throws message_throws Undefined = Some TypeError"
  "log_throws message_throws Null = Some TypeError"
  "log_throws message_throws (Thrown e) = message_throws e"
  "log_throws message_throws TypeError = None"
  by (simp_all add: log_throws_def)

lemma retry_loop_success:
  assumes "\<forall>i<j. \<exists>err. response fn st i = Inl err \<and> log_throws message_throws err = None"
    and "response fn st j = Inr v"
    and "attempt + int j \<le> maxRetries"
  shows "retry_loop message_throws fn maxRetries delayMs attempt lastErr st n zs =
    \<lparr>outcome = Inr v, calls = n + j + 1, slept = zs @ replicate j delayMs\<rparr>"
  using assms
proof (induction j arbitrary: attempt lastErr st n zs)
  case 0
  obtain st' where "fn st = (Inr v, st')"
    using "0.prems"(2) by (cases "fn st") (simp add: response_0)
  then show ?case
    using "0.prems"(3) by (subst retry_loop.simps) simp
next
  case (Suc j)
  have "\<exists>err. response fn st 0 = Inl err \<and> log_throws message_throws err = None"
    using Suc.prems(1) by blast
  then obtain err st' where step: "fn st = (Inl err, st')"
    and logs: "log_throws message_throws err = None"
    by (cases "fn st") (auto simp: response_0)
  have "retry_loop message_throws fn maxRetries delayMs (attempt + 1) err st' (n + 1)
      (zs @ [delayMs]) =
    \<lparr>outcome = Inr v, calls = (n + 1) + j + 1, slept = (zs @ [delayMs]) @ replicate j delayMs\<rparr>"
  proof (rule Suc.IH)
    show "\<forall>i<j. \<exists>err. response fn st' i = Inl err \<and> log_throws message_throws err = None"
      using Suc.prems(1) step response_Suc [of fn st] by auto
    show "response fn st' j = Inr v"
      using Suc.prems(2) step by (simp add: response_Suc)
    show "attempt + 1 + int j \<le> maxRetries"
      using Suc.prems(3) by simp
  qed
  moreover have "attempt \<le> maxRetries" "attempt \<noteq> maxRetries"
    using Suc.prems(3) by simp_all
  ultimately show ?case
    using step logs by (subst retry_loop.simps) (simp add: replicate_app_Cons_same)
qed

lemma retry_loop_exhausted:
  assumes "\<forall>i<m. \<exists>err. response fn st i = Inl err \<and> log_throws message_throws err = None"
    and "response fn st m = Inl final"
    and "attempt + int m = maxRetries"
  shows "retry_loop message_throws fn maxRetries delayMs attempt lastErr st n zs =
    \<lparr>outcome = Inl final, calls = n + m + 1, slept = zs @ replicate m delayMs\<rparr>"
  using assms
proof (induction m arbitrary: attempt lastErr st n zs)
  case 0
  then obtain st' where step: "fn st = (Inl final, st')"
    by (cases "fn st") (auto simp: response_0)
  then show ?case
    using "0.prems"(3) by (subst retry_loop.simps) simp
next
  case (Suc m)
  have "\<exists>err. response fn st 0 = Inl err \<and> log_throws message_throws err = None"
    using Suc.prems(1) by blast
  then obtain err st' where step: "fn st = (Inl err, st')"
    and logs: "log_throws message_throws err = None"
    by (cases "fn st") (auto simp: response_0)
  have "retry_loop message_throws fn maxRetries delayMs (attempt + 1) err st' (n + 1)
      (zs @ [delayMs]) =
    \<lparr>outcome = Inl final, calls = (n + 1) + m + 1,
     slept = (zs @ [delayMs]) @ replicate m delayMs\<rparr>"
  proof (rule Suc.IH)
    show "\<forall>i<m. \<exists>err. response fn st' i = Inl err \<and> log_throws message_throws err = None"
      using Suc.prems(1) step response_Suc [of fn st] by auto
    show "response fn st' m = Inl final"
      using Suc.prems(2) step by (simp add: response_Suc)
    show "attempt + 1 + int m = maxRetries"
      using Suc.prems(3) by simp
  qed
  moreover have "attempt \<le> maxRetries" "attempt \<noteq> maxRetries"
    using Suc.prems(3) by simp_all
  ultimately show ?case
    using step logs by (subst retry_loop.simps) (simp add: replicate_app_Cons_same)
qed

lemma retry_loop_log_throws:
  assumes "\<forall>i<j. \<exists>err. response fn st i = Inl err \<and> log_throws message_throws err = None"
    and "response fn st j = Inl err"
    and "log_throws message_throws err = Some t"
    and "attempt + int j < maxRetries"
  shows "retry_loop message_throws fn maxRetries delayMs attempt lastErr st n zs =
    \<lparr>outcome = Inl t, calls = n + j + 1, slept = zs @ replicate j delayMs\<rparr>"
  using assms
proof (induction j arbitrary: attempt lastErr st n zs)
  case 0
  obtain st' where "fn st = (Inl err, st')"
    using "0.prems"(2) by (cases "fn st") (simp add: response_0)
  then show ?case
    using "0.prems"(3,4) by (subst retry_loop.simps) simp
next
  case (Suc j)
  have "\<exists>err. response fn st 0 = Inl err \<and> log_throws message_throws err = None"
    using Suc.prems(1) by blast
  then obtain err0 st' where step: "fn st = (Inl err0, st')"
    and logs: "log_throws message_throws err0 = None"
    by (cases "fn st") (auto simp: response_0)
  have "retry_loop message_throws fn maxRetries delayMs (attempt + 1) err0 st' (n + 1)
      (zs @ [delayMs]) =
    \<lparr>outcome = Inl t, calls = (n + 1) + j + 1, slept = (zs @ [delayMs]) @ replicate j delayMs\<rparr>"
  proof (rule Suc.IH)
    show "\<forall>i<j. \<exists>err. response fn st' i = Inl err \<and> log_throws message_throws err = None"
      using Suc.prems(1) step response_Suc [of fn st] by auto
    show "response fn st' j = Inl err"
      using Suc.prems(2) step by (simp add: response_Suc)
    show "log_throws message_throws err = Some t" by (fact Suc.prems(3))
    show "attempt + 1 + int j < maxRetries"
      using Suc.prems(4) by simp
  qed
  moreover have "attempt \<le> maxRetries" "attempt \<noteq> maxRetries"
    using Suc.prems(4) by simp_all
  ultimately show ?case
    using step logs by (subst retry_loop.simps) (simp add: replicate_app_Cons_same)
qed

lemma first_success_eq:
  assumes "\<forall>i<j. isl (response fn st i)" and "\<not> isl (response fn st j)"
  shows "first_success fn st = enat (Suc j)"
proof -
  have "(LEAST i. \<not> isl (response fn st i)) = j"
    using assms by (intro Least_equality) (auto simp: not_less [symmetric])
  then show ?thesis
    using assms(2) by (auto simp: first_success_def)
qed

lemma first_success_greater:
  assumes "\<forall>i\<le>m. isl (response fn st i)"
  shows "enat (Suc m) < first_success fn st"
proof (cases "\<exists>j. \<not> isl (response fn st j)")
  case True
  then have "\<not> isl (response fn st (LEAST j. \<not> isl (response fn st j)))"
    by (metis (mono_tags, lifting) LeastI_ex)
  then have "m < (LEAST j. \<not> isl (response fn st j))"
    using assms by (meson not_le_imp_less)
  then show ?thesis
    using True by (simp add: first_success_def)
next
  case False
  then show ?thesis by (simp add: first_success_def)
qed


text \<open>
  As long as the warning line evaluates for the reason of every failed attempt that is
  followed by another one, \<open>retry\<close> keeps the retry policy: for \<open>maxRetries \<ge> 0\<close> it invokes
  the operation \<open>min(k, maxRetries + 1)\<close> times, \<open>k\<close> being the 1-based index of the first
  invocation that succeeds (\<open>\<infinity>\<close> when none does), its outcome is the outcome of the last
  invocation it made, the reason unchanged when that one failed, and it sleeps the fixed
  delay between two invocations.
\<close>

lemma retry_invocations_when_log_evaluates:
  assumes "0 \<le> maxRetries"
    and "\<forall>i<nat maxRetries. \<forall>err. response fn st i = Inl err \<longrightarrow>
           log_throws message_throws err = None"
  shows
   "enat (calls (retry message_throws fn maxRetries delayMs st)) =
      min (first_success fn st) (enat (nat maxRetries + 1)) \<and>
    outcome (retry message_throws fn maxRetries delayMs st) =
      response fn st (calls (retry message_throws fn maxRetries delayMs st) - 1) \<and>
    (first_success fn st \<le> enat (nat maxRetries + 1) \<longrightarrow>
       (\<exists>v. response fn st (the_enat (first_success fn st) - 1) = Inr v \<and>
            outcome (retry message_throws fn maxRetries delayMs st) = Inr v)) \<and>
    (enat (nat maxRetries + 1) < first_success fn st \<longrightarrow>
       (\<exists>err. response fn st (nat maxRetries) = Inl err \<and>
            outcome (retry message_throws fn maxRetries delayMs st) = Inl err)) \<and>
    slept (retry message_throws fn maxRetries delayMs st) =
      replicate (calls (retry message_throws fn maxRetries delayMs st) - 1) delayMs"
proof (cases "\<exists>j\<le>nat maxRetries. \<not> isl (response fn st j)")
  case True
  define j where "j = (LEAST j. \<not> isl (response fn st j))"
  from True obtain j' where j': "j' \<le> nat maxRetries" "\<not> isl (response fn st j')"
    by blast
  have succeeds: "\<not> isl (response fn st j)"
    unfolding j_def using j'(2) by (rule LeastI)
  have before: "\<forall>i<j. isl (response fn st i)"
    unfolding j_def using not_less_Least by blast
  have "j \<le> j'"
    unfolding j_def using j'(2) by (rule Least_le)
  then have bound: "j \<le> nat maxRetries"
    using j'(1) by simp
  have logged: "\<forall>i<j. \<exists>err. response fn st i = Inl err \<and> log_throws message_throws err = None"
  proof (intro allI impI)
    fix i assume "i < j"
    then have "isl (response fn st i)" and "i < nat maxRetries"
      using before bound by auto
    then show "\<exists>err. response fn st i = Inl err \<and> log_throws message_throws err = None"
      using assms(2) by (cases "response fn st i") auto
  qed
  obtain v where v: "response fn st j = Inr v"
    using succeeds by (cases "response fn st j") simp_all
  have k: "first_success fn st = enat (Suc j)"
    using before succeeds by (rule first_success_eq)
  have "0 + int j \<le> maxRetries"
    using bound assms(1) by simp
  with logged v have r: "retry message_throws fn maxRetries delayMs st =
      \<lparr>outcome = Inr v, calls = 0 + j + 1, slept = [] @ replicate j delayMs\<rparr>"
    unfolding retry_def by (rule retry_loop_success)
  show ?thesis
    using bound v by (simp add: r k min_def)
next
  case False
  then have all: "\<forall>i\<le>nat maxRetries. isl (response fn st i)"
    by blast
  have k: "enat (Suc (nat maxRetries)) < first_success fn st"
    using all by (rule first_success_greater)
  have logged: "\<forall>i<nat maxRetries. \<exists>err. response fn st i = Inl err \<and>
      log_throws message_throws err = None"
  proof (intro allI impI)
    fix i assume i: "i < nat maxRetries"
    then have "isl (response fn st i)"
      using all by simp
    then show "\<exists>err. response fn st i = Inl err \<and> log_throws message_throws err = None"
      using assms(2) i by (cases "response fn st i") auto
  qed
  obtain err where err: "response fn st (nat maxRetries) = Inl err"
    using all by (cases "response fn st (nat maxRetries)") auto
  have "0 + int (nat maxRetries) = maxRetries"
    using assms(1) by simp
  with logged err have r: "retry message_throws fn maxRetries delayMs st =
      \<lparr>outcome = Inl err, calls = 0 + nat maxRetries + 1,
       slept = [] @ replicate (nat maxRetries) delayMs\<rparr>"
    unfolding retry_def by (rule retry_loop_exhausted)
  have "\<not> first_success fn st \<le> enat (Suc (nat maxRetries))"
    using k by simp
  then show ?thesis
    using k err by (simp add: r min_def)
qed

lemma undefined_once_responses:
  "response undefined_once_operation 0 0 = Inl Undefined"
  "response undefined_once_operation 0 1 = Inr ''task-1''"
  by code_simp+

lemma undefined_once_first_success: "first_success undefined_once_operation 0 = enat 2"
proof -
  have "first_success undefined_once_operation 0 = enat (Suc 1)"
  proof (rule first_success_eq)
    show "\<forall>i<1. isl (response undefined_once_operation 0 i)"
      using undefined_once_responses(1) by simp
    show "\<not> isl (response undefined_once_operation 0 1)"
      using undefined_once_responses(2) by simp
  qed
  then show ?thesis by (simp add: numeral_2_eq_2)
qed

text \<open>
  Claim C2 says that for every operation, every \<open>maxRetries \<ge> 0\<close> and every delay, \<open>retry\<close>
  invokes the operation exactly \<open>min(k, maxRetries + 1)\<close> times, \<open>k\<close> being the 1-based
  index of the first invocation that succeeds, returns the first successful result, and
  throws the error of the last invocation unchanged when all fail. The code departs from
  this for an operation that rejects with \<open>undefined\<close> (or \<open>null\<close>) while a retry is left:
  with \<open>maxRetries = 3\<close> and an operation whose first invocation rejects with \<open>undefined\<close>
  and whose second one succeeds, \<open>k = 2\<close> and the statement asks for two invocations and
  the result of the second, but the warning line throws a \<open>TypeError\<close> inside the catch
  handler and \<open>retry\<close> ends after one invocation with that \<open>TypeError\<close>, without sleeping.
\<close>

theorem retry_on_undefined_rejection:
  "response undefined_once_operation 0 0 = Inl Undefined \<and>
   response undefined_once_operation 0 1 = Inr ''task-1'' \<and>
   first_success undefined_once_operation 0 = enat 2 \<and>
   min (first_success undefined_once_operation 0) (enat (nat 3 + 1)) = enat 2 \<and>
   retry message_evaluates undefined_once_operation 3 1500 0 =
     \<lparr>outcome = Inl TypeError, calls = 1, slept = []\<rparr>"
proof -
  have "retry message_evaluates undefined_once_operation 3 1500 0 =
     \<lparr>outcome = Inl TypeError, calls = 1, slept = []\<rparr>"
    by code_simp
  moreover have "min (first_success undefined_once_operation 0) (enat (nat 3 + 1)) = enat 2"
    by (simp add: undefined_once_first_success)
  ultimately show ?thesis
    using undefined_once_responses undefined_once_first_success by (intro conjI)
qed

text \<open>
  With reasons that are objects the same call pattern follows the retry policy: two
  failures and a success take three invocations and two sleeps, and with one retry the
  reason of the second invocation is thrown unchanged.
\<close>

lemma flaky_first_success: "first_success flaky_operation 0 = enat 3"
proof -
  have "first_success flaky_operation 0 = enat (Suc 2)"
  proof (rule first_success_eq)
    have "response flaky_operation 0 0 = Inl (Thrown 0)"
      "response flaky_operation 0 1 = Inl (Thrown 1)"
      by code_simp+
    then show "\<forall>i<2. isl (response flaky_operation 0 i)"
      by (simp add: less_Suc_eq numeral_2_eq_2)
    have "response flaky_operation 0 2 = Inr ''task-1''"
      by code_simp
    then show "\<not> isl (response flaky_operation 0 2)"
      by simp
  qed
  then show ?thesis by simp
qed

lemma retry_flaky_operation:
  "retry message_evaluates flaky_operation 3 1500 0 =
     \<lparr>outcome = Inr ''task-1'', calls = 3, slept = [1500, 1500]\<rparr>"
  "retry message_evaluates flaky_operation 1 1500 0 =
     \<lparr>outcome = Inl (Thrown 1), calls = 2, slept = [1500]\<rparr>"
  by code_simp+

section \<open>Properties of the task poller\<close>

lemma response_shift: "(\<lambda>i. response fn st (Suc i)) = response fn (snd (fn st))"
  by (rule ext) (simp add: response_Suc)

lemma last_fetched_shift:
  "last_fetched init rsp (Suc m) =
     last_fetched (case rsp 0 of Inr status \<Rightarrow> status | Inl err \<Rightarrow> init) (\<lambda>i. rsp (Suc i)) m"
  by (induction m) (simp_all split: sum.splits)

lemma last_fetched_none_succeeded:
  "\<forall>i<m. isl (rsp i) \<Longrightarrow> last_fetched init rsp m = init"
  by (induction m) (auto split: sum.splits)

lemma last_fetched_latest:
  "j < m \<Longrightarrow> rsp j = Inr status \<Longrightarrow> \<forall>i. j < i \<and> i < m \<longrightarrow> isl (rsp i) \<Longrightarrow>
     last_fetched init rsp m = status"
proof (induction m)
  case 0
  then show ?case by simp
next
  case (Suc m)
  show ?case
  proof (cases "j = m")
    case True
    then show ?thesis using Suc.prems(2) by simp
  next
    case False
    then have "j < m" using Suc.prems(1) by simp
    moreover have "isl (rsp m)" using Suc.prems(3) \<open>j < m\<close> by simp
    ultimately show ?thesis
      using Suc.IH Suc.prems(2,3) by (cases "rsp m") auto
  qed
qed

lemma terminal_response_simps:
  "terminal_response (Inl err) = False"
  "terminal_response (Inr status) = terminal_observed status"
  by (simp_all add: terminal_response_def)

lemma waitForTaskFinal_loop_terminal:
  assumes "\<forall>i<j. \<not> terminal_response (response (getTaskStatus taskId) st i)"
    and "response (getTaskStatus taskId) st j = Inr status"
    and "terminal_observed status"
    and "i0 + int j < maxAttempts"
  shows "waitForTaskFinal_loop getTaskStatus taskId maxAttempts intervalMs i0 lastStatus st n zs =
    \<lparr>returned = status, polls = n + j + 1, waited = zs @ replicate j intervalMs,
     from_loop = True\<rparr>"
  using assms
proof (induction j arbitrary: i0 lastStatus st n zs)
  case 0
  obtain st' where "getTaskStatus taskId st = (Inr status, st')"
    using "0.prems"(2) by (cases "getTaskStatus taskId st") (simp add: response_0)
  then show ?case
    using "0.prems"(3,4) by (subst waitForTaskFinal_loop.simps) simp
next
  case (Suc j)
  obtain rsp st' where step: "getTaskStatus taskId st = (rsp, st')"
    by (cases "getTaskStatus taskId st")
  have not_final: "\<not> terminal_response rsp"
    using Suc.prems(1) step by (auto simp: response_0 dest: spec [of _ 0])
  have IH: "waitForTaskFinal_loop getTaskStatus taskId maxAttempts intervalMs (i0 + 1) last' st'
      (n + 1) (zs @ [intervalMs]) =
    \<lparr>returned = status, polls = (n + 1) + j + 1,
     waited = (zs @ [intervalMs]) @ replicate j intervalMs, from_loop = True\<rparr>" for last'
  proof (rule Suc.IH)
    show "\<forall>i<j. \<not> terminal_response (response (getTaskStatus taskId) st' i)"
      using Suc.prems(1) step response_Suc [of "getTaskStatus taskId" st] by auto
    show "response (getTaskStatus taskId) st' j = Inr status"
      using Suc.prems(2) step by (simp add: response_Suc)
    show "terminal_observed status" by (fact Suc.prems(3))
    show "i0 + 1 + int j < maxAttempts"
      using Suc.prems(4) by simp
  qed
  have "i0 < maxAttempts"
    using Suc.prems(4) by simp
  then show ?case
    using step not_final IH
    by (subst waitForTaskFinal_loop.simps)
      (cases rsp; simp add: terminal_response_simps replicate_app_Cons_same)
qed

lemma waitForTaskFinal_loop_exhausted:
  assumes "\<forall>i<m. \<not> terminal_response (response (getTaskStatus taskId) st i)"
    and "nat (maxAttempts - i0) = m"
  shows "waitForTaskFinal_loop getTaskStatus taskId maxAttempts intervalMs i0 lastStatus st n zs =
    \<lparr>returned = last_fetched lastStatus (response (getTaskStatus taskId) st) m,
     polls = n + m, waited = zs @ replicate m intervalMs, from_loop = False\<rparr>"
  using assms
proof (induction m arbitrary: i0 lastStatus st n zs)
  case 0
  then have "\<not> i0 < maxAttempts" by simp
  then show ?case
    by (subst waitForTaskFinal_loop.simps) simp
next
  case (Suc m)
  obtain rsp st' where step: "getTaskStatus taskId st = (rsp, st')"
    by (cases "getTaskStatus taskId st")
  have rsp0: "response (getTaskStatus taskId) st 0 = rsp"
    using step by (simp add: response_0)
  have not_final: "\<not> terminal_response rsp"
    using Suc.prems(1) rsp0 by (auto dest: spec [of _ 0])
  have shift: "(\<lambda>i. response (getTaskStatus taskId) st (Suc i)) = response (getTaskStatus taskId) st'"
    using step response_shift [of "getTaskStatus taskId" st] by simp
  have IH: "waitForTaskFinal_loop getTaskStatus taskId maxAttempts intervalMs (i0 + 1) last' st'
      (n + 1) (zs @ [intervalMs]) =
    \<lparr>returned = last_fetched last' (response (getTaskStatus taskId) st') m,
     polls = (n + 1) + m, waited = (zs @ [intervalMs]) @ replicate m intervalMs,
     from_loop = False\<rparr>" for last'
  proof (rule Suc.IH)
    show "\<forall>i<m. \<not> terminal_response (response (getTaskStatus taskId) st' i)"
      using Suc.prems(1) step response_Suc [of "getTaskStatus taskId" st] by auto
    show "nat (maxAttempts - (i0 + 1)) = m"
      using Suc.prems(2) by simp
  qed
  have "i0 < maxAttempts"
    using Suc.prems(2) by simp
  then show ?case
    using step not_final IH
    by (subst waitForTaskFinal_loop.simps, subst last_fetched_shift)
      (cases rsp; simp add: terminal_response_simps replicate_app_Cons_same rsp0 shift)
qed


lemma terminal_observed_iff:
  "terminal_observed lastStatus \<longleftrightarrow>
     (\<exists>status. lastStatus = Some status \<and>
        ((\<exists>h. transactionHash status = Some h \<and> h \<noteq> []) \<or>
         (\<exists>s. taskState status = Some s \<and>
              s \<in> {''ExecSuccess'', ''ExecReverted'', ''Cancelled'', ''Blacklisted'',
                    ''NotFound'', ''Reverted'', ''CancelledByUser''})))"
proof (cases lastStatus)
  case None
  then show ?thesis by (simp add: terminal_observed_def truthy_def)
next
  case (Some status)
  have "truthy (transactionHash status) \<longleftrightarrow> (\<exists>h. transactionHash status = Some h \<and> h \<noteq> [])"
    by (cases "transactionHash status") (simp_all add: truthy_def)
  moreover have "(truthy (taskState status) \<and>
      (case taskState status of None \<Rightarrow> False | Some str \<Rightarrow> str \<in> set TERMINAL_STATES)) \<longleftrightarrow>
      (\<exists>s. taskState status = Some s \<and>
              s \<in> {''ExecSuccess'', ''ExecReverted'', ''Cancelled'', ''Blacklisted'',
                    ''NotFound'', ''Reverted'', ''CancelledByUser''})"
    by (cases "taskState status") (auto simp: truthy_def TERMINAL_STATES_def)
  ultimately show ?thesis
    using Some by (simp add: terminal_observed_def)
qed

lemma waitForTaskFinal_cases:
  obtains (terminal) t status where
      "t < nat maxAttempts"
      "\<forall>i<t. \<not> terminal_response (response (getTaskStatus taskId) st i)"
      "response (getTaskStatus taskId) st t = Inr status"
      "terminal_observed status"
      "waitForTaskFinal getTaskStatus taskId maxAttempts intervalMs st =
         \<lparr>returned = status, polls = t + 1, waited = replicate t intervalMs, from_loop = True\<rparr>"
  | (exhausted)
      "\<forall>i<nat maxAttempts. \<not> terminal_response (response (getTaskStatus taskId) st i)"
      "waitForTaskFinal getTaskStatus taskId maxAttempts intervalMs st =
         \<lparr>returned = last_fetched None (response (getTaskStatus taskId) st) (nat maxAttempts),
          polls = nat maxAttempts, waited = replicate (nat maxAttempts) intervalMs,
          from_loop = False\<rparr>"
proof (cases "\<exists>j<nat maxAttempts. terminal_response (response (getTaskStatus taskId) st j)")
  case True
  define t where "t = (LEAST j. terminal_response (response (getTaskStatus taskId) st j))"
  from True obtain j where j: "j < nat maxAttempts"
    "terminal_response (response (getTaskStatus taskId) st j)"
    by blast
  have tr: "terminal_response (response (getTaskStatus taskId) st t)"
    unfolding t_def using j(2) by (rule LeastI)
  have before: "\<forall>i<t. \<not> terminal_response (response (getTaskStatus taskId) st i)"
    unfolding t_def using not_less_Least by blast
  have "t \<le> j"
    unfolding t_def using j(2) by (rule Least_le)
  then have bound: "t < nat maxAttempts"
    using j(1) by simp
  obtain status where status: "response (getTaskStatus taskId) st t = Inr status"
    "terminal_observed status"
    using tr by (cases "response (getTaskStatus taskId) st t") (simp_all add: terminal_response_simps)
  have "0 + int t < maxAttempts"
    using bound by simp
  with before status have "waitForTaskFinal getTaskStatus taskId maxAttempts intervalMs st =
    \<lparr>returned = status, polls = 0 + t + 1, waited = [] @ replicate t intervalMs,
     from_loop = True\<rparr>"
    unfolding waitForTaskFinal_def by (rule waitForTaskFinal_loop_terminal)
  then have "waitForTaskFinal getTaskStatus taskId maxAttempts intervalMs st =
    \<lparr>returned = status, polls = t + 1, waited = replicate t intervalMs, from_loop = True\<rparr>"
    by simp
  with bound before status show ?thesis by (rule terminal)
next
  case False
  then have none: "\<forall>i<nat maxAttempts. \<not> terminal_response (response (getTaskStatus taskId) st i)"
    by blast
  have "nat (maxAttempts - 0) = nat maxAttempts" by simp
  with none have "waitForTaskFinal getTaskStatus taskId maxAttempts intervalMs st =
    \<lparr>returned = last_fetched None (response (getTaskStatus taskId) st) (nat maxAttempts),
     polls = 0 + nat maxAttempts, waited = [] @ replicate (nat maxAttempts) intervalMs,
     from_loop = False\<rparr>"
    unfolding waitForTaskFinal_def by (rule waitForTaskFinal_loop_exhausted)
  then have "waitForTaskFinal getTaskStatus taskId maxAttempts intervalMs st =
    \<lparr>returned = last_fetched None (response (getTaskStatus taskId) st) (nat maxAttempts),
     polls = nat maxAttempts, waited = replicate (nat maxAttempts) intervalMs,
     from_loop = False\<rparr>"
    by simp
  with none show ?thesis by (rule exhausted)
qed


text \<open>
  Claim C1. \<open>waitForTaskFinal\<close> returns before its \<open>maxAttempts\<close> queries are used up
  only through the return inside the loop, and that return happens only when the status
  just fetched has a transaction hash or a \<open>taskState\<close> of the terminal vocabulary
  ExecSuccess, ExecReverted, Cancelled, Blacklisted, NotFound, Reverted,
  CancelledByUser. In particular a fetched status with a transaction hash is returned at
  once whatever its \<open>taskState\<close> is, \<open>CheckPending\<close> for example.
\<close>

theorem waitForTaskFinal_returns_early_only_when_terminal:
  "(let r = waitForTaskFinal getTaskStatus taskId maxAttempts intervalMs st;
        rsp = response (getTaskStatus taskId) st
    in (int (polls r) < maxAttempts \<longrightarrow> from_loop r) \<and>
       (from_loop r \<longrightarrow>
          0 < polls r \<and> int (polls r) \<le> maxAttempts \<and> rsp (polls r - 1) = Inr (returned r) \<and>
          (\<exists>status. returned r = Some status \<and>
             ((\<exists>h. transactionHash status = Some h \<and> h \<noteq> []) \<or>
              (\<exists>s. taskState status = Some s \<and>
                 s \<in> {''ExecSuccess'', ''ExecReverted'', ''Cancelled'', ''Blacklisted'',
                       ''NotFound'', ''Reverted'', ''CancelledByUser''})))) \<and>
       ((\<forall>i<j. \<not> terminal_response (rsp i)) \<and> int j < maxAttempts \<and>
        rsp j = Inr (Some status) \<and> transactionHash status = Some h \<and> h \<noteq> [] \<longrightarrow>
          r = \<lparr>returned = Some status, polls = j + 1, waited = replicate j intervalMs,
               from_loop = True\<rparr>))"
proof -
  let ?r = "waitForTaskFinal getTaskStatus taskId maxAttempts intervalMs st"
  let ?rsp = "response (getTaskStatus taskId) st"
  have early: "int (polls ?r) < maxAttempts \<longrightarrow> from_loop ?r"
  proof (cases rule: waitForTaskFinal_cases [of maxAttempts getTaskStatus taskId st intervalMs])
    case (terminal t status)
    then show ?thesis by simp
  next
    case exhausted
    then show ?thesis by simp
  qed
  have loop: "from_loop ?r \<longrightarrow>
          0 < polls ?r \<and> int (polls ?r) \<le> maxAttempts \<and> ?rsp (polls ?r - 1) = Inr (returned ?r) \<and>
          (\<exists>status. returned ?r = Some status \<and>
             ((\<exists>h. transactionHash status = Some h \<and> h \<noteq> []) \<or>
              (\<exists>s. taskState status = Some s \<and>
                 s \<in> {''ExecSuccess'', ''ExecReverted'', ''Cancelled'', ''Blacklisted'',
                       ''NotFound'', ''Reverted'', ''CancelledByUser''})))"
  proof (cases rule: waitForTaskFinal_cases [of maxAttempts getTaskStatus taskId st intervalMs])
    case (terminal t status)
    have "int (t + 1) \<le> maxAttempts"
      using terminal(1) by simp
    moreover note terminal(4) [unfolded terminal_observed_iff]
    ultimately show ?thesis
      using terminal(3) by (simp add: terminal(5))
  next
    case exhausted
    then show ?thesis by simp
  qed
  have hash: "(\<forall>i<j. \<not> terminal_response (?rsp i)) \<and> int j < maxAttempts \<and>
        ?rsp j = Inr (Some status) \<and> transactionHash status = Some h \<and> h \<noteq> [] \<longrightarrow>
          ?r = \<lparr>returned = Some status, polls = j + 1, waited = replicate j intervalMs,
               from_loop = True\<rparr>"
  proof
    assume a: "(\<forall>i<j. \<not> terminal_response (?rsp i)) \<and> int j < maxAttempts \<and>
        ?rsp j = Inr (Some status) \<and> transactionHash status = Some h \<and> h \<noteq> []"
    then have "terminal_observed (Some status)"
      unfolding terminal_observed_iff by blast
    moreover have "0 + int j < maxAttempts" using a by simp
    ultimately have "?r = \<lparr>returned = Some status, polls = 0 + j + 1,
        waited = [] @ replicate j intervalMs, from_loop = True\<rparr>"
      unfolding waitForTaskFinal_def using a
      by (intro waitForTaskFinal_loop_terminal) blast+
    then show "?r = \<lparr>returned = Some status, polls = j + 1, waited = replicate j intervalMs,
               from_loop = True\<rparr>"
      by simp
  qed
  show ?thesis
    unfolding Let_def using early loop hash by blast
qed

lemma example_relay_responses:
  "response (example_relay ''task-1'') 0 0 = Inl ''503''"
  "response (example_relay ''task-1'') 0 1 = Inr (Some pending_status)"
  "response (example_relay ''task-1'') 0 2 = Inr (Some hash_status)"
  by code_simp+

lemma example_relay_not_terminal:
  "\<not> terminal_response (response (example_relay ''task-1'') 0 0)"
  "\<not> terminal_response (response (example_relay ''task-1'') 0 1)"
  by code_simp+

lemma example_relay_run:
  "waitForTaskFinal example_relay ''task-1'' 5 5000 0 =
     \<lparr>returned = Some hash_status, polls = 3, waited = [5000, 5000], from_loop = True\<rparr>"
  by code_simp

theorem waitForTaskFinal_returns_early_only_when_terminal_witness:
  "waitForTaskFinal example_relay ''task-1'' 5 5000 0 =
     \<lparr>returned = Some hash_status, polls = 3, waited = [5000, 5000], from_loop = True\<rparr> \<and>
   int (polls (waitForTaskFinal example_relay ''task-1'' 5 5000 0)) < 5 \<and>
   from_loop (waitForTaskFinal example_relay ''task-1'' 5 5000 0) \<and>
   \<not> terminal_response (response (example_relay ''task-1'') 0 0) \<and>
   \<not> terminal_response (response (example_relay ''task-1'') 0 1) \<and>
   response (example_relay ''task-1'') 0 2 = Inr (Some hash_status) \<and>
   taskState hash_status = Some ''CheckPending'' \<and>
   transactionHash hash_status = Some ''0xabc'' \<and>
   ''CheckPending'' \<notin> set TERMINAL_STATES"
proof -
  have before: "\<forall>i<2. \<not> terminal_response (response (example_relay ''task-1'') 0 i)"
    using example_relay_not_terminal by (simp add: less_Suc_eq numeral_2_eq_2)
  have fields: "taskState hash_status = Some ''CheckPending''"
    "transactionHash hash_status = Some ''0xabc''"
    by (simp_all add: hash_status_def)
  have vocabulary: "''CheckPending'' \<notin> set TERMINAL_STATES"
    by (simp add: TERMINAL_STATES_def)
  have "waitForTaskFinal example_relay ''task-1'' 5 5000 0 =
     \<lparr>returned = Some hash_status, polls = 2 + 1, waited = replicate 2 5000, from_loop = True\<rparr>"
    using waitForTaskFinal_returns_early_only_when_terminal
      [of example_relay "''task-1''" 5 5000 0 2 hash_status "''0xabc''"]
      before example_relay_responses(3) fields(2)
    by (simp add: Let_def)
  then have run: "waitForTaskFinal example_relay ''task-1'' 5 5000 0 =
     \<lparr>returned = Some hash_status, polls = 3, waited = [5000, 5000], from_loop = True\<rparr>"
    by (simp add: numeral_2_eq_2)
  have "int (polls (waitForTaskFinal example_relay ''task-1'' 5 5000 0)) < 5"
    "from_loop (waitForTaskFinal example_relay ''task-1'' 5 5000 0)"
    by (simp_all add: run)
  with run example_relay_not_terminal example_relay_responses(3) fields vocabulary
  show ?thesis by (intro conjI)
qed


text \<open>
  Claim C8. A status query that fails does not end the poll of \<open>waitForTaskFinal\<close>: when
  a further attempt remains, the poller sleeps the interval and makes it. When all
  \<open>maxAttempts\<close> attempts pass without a terminal observation, the function returns, as
  an ordinary result and not as an error, the status fetched by the last query that
  succeeded, or \<open>undefined\<close> when no query succeeded.
\<close>

theorem waitForTaskFinal_survives_failures:
  "(let r = waitForTaskFinal getTaskStatus taskId maxAttempts intervalMs st;
        rsp = response (getTaskStatus taskId) st
    in ((\<forall>i<j. \<not> terminal_response (rsp i)) \<and> rsp j = Inl err \<and> int j + 1 < maxAttempts \<longrightarrow>
          j + 2 \<le> polls r \<and> j < length (waited r) \<and> waited r ! j = intervalMs) \<and>
       ((\<forall>i<nat maxAttempts. \<not> terminal_response (rsp i)) \<longrightarrow>
          r = \<lparr>returned = last_fetched None rsp (nat maxAttempts), polls = nat maxAttempts,
               waited = replicate (nat maxAttempts) intervalMs, from_loop = False\<rparr> \<and>
          ((\<forall>i<nat maxAttempts. isl (rsp i)) \<longrightarrow> returned r = None) \<and>
          (k < nat maxAttempts \<and> rsp k = Inr status \<and>
           (\<forall>i. k < i \<and> i < nat maxAttempts \<longrightarrow> isl (rsp i)) \<longrightarrow> returned r = status)))"
proof -
  let ?r = "waitForTaskFinal getTaskStatus taskId maxAttempts intervalMs st"
  let ?rsp = "response (getTaskStatus taskId) st"
  have failure: "(\<forall>i<j. \<not> terminal_response (?rsp i)) \<and> ?rsp j = Inl err \<and> int j + 1 < maxAttempts \<longrightarrow>
          j + 2 \<le> polls ?r \<and> j < length (waited ?r) \<and> waited ?r ! j = intervalMs"
  proof
    assume a: "(\<forall>i<j. \<not> terminal_response (?rsp i)) \<and> ?rsp j = Inl err \<and> int j + 1 < maxAttempts"
    then have upto: "\<forall>i\<le>j. \<not> terminal_response (?rsp i)"
      by (auto simp: le_less terminal_response_simps)
    show "j + 2 \<le> polls ?r \<and> j < length (waited ?r) \<and> waited ?r ! j = intervalMs"
    proof (cases rule: waitForTaskFinal_cases [of maxAttempts getTaskStatus taskId st intervalMs])
      case (terminal t status)
      have "terminal_response (?rsp t)"
        using terminal(3,4) by (simp add: terminal_response_simps)
      then have "j < t"
        using upto by (meson not_le_imp_less)
      then show ?thesis
        by (simp add: terminal(5))
    next
      case exhausted
      from a have "int j + 1 < maxAttempts" by blast
      then have "j + 1 < nat maxAttempts" by linarith
      then show ?thesis
        by (simp add: exhausted(2))
    qed
  qed
  have exhaustion: "(\<forall>i<nat maxAttempts. \<not> terminal_response (?rsp i)) \<longrightarrow>
          ?r = \<lparr>returned = last_fetched None ?rsp (nat maxAttempts), polls = nat maxAttempts,
               waited = replicate (nat maxAttempts) intervalMs, from_loop = False\<rparr> \<and>
          ((\<forall>i<nat maxAttempts. isl (?rsp i)) \<longrightarrow> returned ?r = None) \<and>
          (k < nat maxAttempts \<and> ?rsp k = Inr status \<and>
           (\<forall>i. k < i \<and> i < nat maxAttempts \<longrightarrow> isl (?rsp i)) \<longrightarrow> returned ?r = status)"
  proof
    assume none: "\<forall>i<nat maxAttempts. \<not> terminal_response (?rsp i)"
    have "nat (maxAttempts - 0) = nat maxAttempts" by simp
    with none have "?r =
      \<lparr>returned = last_fetched None ?rsp (nat maxAttempts),
       polls = 0 + nat maxAttempts, waited = [] @ replicate (nat maxAttempts) intervalMs,
       from_loop = False\<rparr>"
      unfolding waitForTaskFinal_def by (rule waitForTaskFinal_loop_exhausted)
    then have r: "?r = \<lparr>returned = last_fetched None ?rsp (nat maxAttempts), polls = nat maxAttempts,
               waited = replicate (nat maxAttempts) intervalMs, from_loop = False\<rparr>"
      by simp
    have "(\<forall>i<nat maxAttempts. isl (?rsp i)) \<longrightarrow> returned ?r = None"
      by (simp add: r last_fetched_none_succeeded)
    moreover have "k < nat maxAttempts \<and> ?rsp k = Inr status \<and>
           (\<forall>i. k < i \<and> i < nat maxAttempts \<longrightarrow> isl (?rsp i)) \<longrightarrow> returned ?r = status"
      using last_fetched_latest [of k "nat maxAttempts" ?rsp status None]
      by (simp add: r)
    ultimately show "?r = \<lparr>returned = last_fetched None ?rsp (nat maxAttempts), polls = nat maxAttempts,
               waited = replicate (nat maxAttempts) intervalMs, from_loop = False\<rparr> \<and>
          ((\<forall>i<nat maxAttempts. isl (?rsp i)) \<longrightarrow> returned ?r = None) \<and>
          (k < nat maxAttempts \<and> ?rsp k = Inr status \<and>
           (\<forall>i. k < i \<and> i < nat maxAttempts \<longrightarrow> isl (?rsp i)) \<longrightarrow> returned ?r = status)"
      using r by blast
  qed
  show ?thesis
    unfolding Let_def using failure exhaustion by blast
qed

lemma pending_relay_responses:
  "response (pending_relay ''task-1'') 0 0 = Inr (Some pending_status)"
  "response (pending_relay ''task-1'') 0 1 = Inl ''503''"
  "response (pending_relay ''task-1'') 0 2 = Inr (Some pending_status)"
  by code_simp+

lemma pending_relay_not_terminal:
  "\<not> terminal_response (response (pending_relay ''task-1'') 0 0)"
  "\<not> terminal_response (response (pending_relay ''task-1'') 0 1)"
  "\<not> terminal_response (response (pending_relay ''task-1'') 0 2)"
  by code_simp+

theorem waitForTaskFinal_survives_failures_witness:
  "\<not> terminal_response (response (pending_relay ''task-1'') 0 0) \<and>
   \<not> terminal_response (response (pending_relay ''task-1'') 0 1) \<and>
   \<not> terminal_response (response (pending_relay ''task-1'') 0 2) \<and>
   response (pending_relay ''task-1'') 0 1 = Inl ''503'' \<and>
   int 1 + 1 < (3::int) \<and>
   waitForTaskFinal pending_relay ''task-1'' 3 5000 0 =
     \<lparr>returned = Some pending_status, polls = 3, waited = [5000, 5000, 5000],
      from_loop = False\<rparr> \<and>
   1 + 2 \<le> polls (waitForTaskFinal pending_relay ''task-1'' 3 5000 0) \<and>
   waited (waitForTaskFinal pending_relay ''task-1'' 3 5000 0) ! 1 = 5000 \<and>
   waitForTaskFinal example_relay ''task-1'' 1 5000 0 =
     \<lparr>returned = None, polls = 1, waited = [5000], from_loop = False\<rparr>"
proof -
  have before: "\<forall>i<1. \<not> terminal_response (response (pending_relay ''task-1'') 0 i)"
    using pending_relay_not_terminal by simp
  have bound: "int 1 + 1 < (3::int)" by simp
  note inst = waitForTaskFinal_survives_failures
    [of pending_relay "''task-1''" 3 5000 0 1 "''503''" 2 "Some pending_status",
     unfolded Let_def]
  have a: "1 + 2 \<le> polls (waitForTaskFinal pending_relay ''task-1'' 3 5000 0)"
    "waited (waitForTaskFinal pending_relay ''task-1'' 3 5000 0) ! 1 = 5000"
    using inst [THEN conjunct1] before pending_relay_responses(2) bound by blast+
  have run: "waitForTaskFinal pending_relay ''task-1'' 3 5000 0 =
     \<lparr>returned = Some pending_status, polls = 3, waited = [5000, 5000, 5000],
      from_loop = False\<rparr>"
    by code_simp
  have run1: "waitForTaskFinal example_relay ''task-1'' 1 5000 0 =
     \<lparr>returned = None, polls = 1, waited = [5000], from_loop = False\<rparr>"
    by code_simp
  from pending_relay_not_terminal pending_relay_responses(2) bound run a run1
  show ?thesis by (intro conjI)
qed

section \<open>Properties of the front end\<close>

lemma truthy_string_or_undefined: "truthy (string_or_undefined x) = truthy x"
  by (simp add: string_or_undefined_def truthy_def)

lemma truthy_iff: "truthy x \<longleftrightarrow> (\<exists>str. x = Some str \<and> str \<noteq> [])"
  by (cases x) (simp_all add: truthy_def)

lemma poll_finished_iff:
  "poll_finished (string_or_undefined state) (string_or_undefined txHash) \<longleftrightarrow>
     (\<exists>h. txHash = Some h \<and> h \<noteq> []) \<or>
     (\<exists>s. state = Some s \<and> s \<noteq> [] \<and> includes_str (toLowerCase s) ''success'')"
proof -
  have "(truthy (string_or_undefined state) \<and>
         (case string_or_undefined state of None \<Rightarrow> False
          | Some str \<Rightarrow> includes_str (toLowerCase str) ''success'')) \<longleftrightarrow>
        (\<exists>s. state = Some s \<and> s \<noteq> [] \<and> includes_str (toLowerCase s) ''success'')"
    by (cases state) (auto simp: string_or_undefined_def truthy_def)
  moreover have "truthy (string_or_undefined txHash) \<longleftrightarrow> (\<exists>h. txHash = Some h \<and> h \<noteq> [])"
    unfolding truthy_string_or_undefined by (rule truthy_iff)
  ultimately show ?thesis
    by (simp only: poll_finished_def)
qed

lemma finishing_response_simps:
  "finishing_response (Inl err) = False"
  "finishing_response (Inr None) = False"
  "finishing_response (Inr (Some status)) \<longleftrightarrow>
     (\<exists>h. transactionHash status = Some h \<and> h \<noteq> []) \<or>
     (\<exists>s. taskState status = Some s \<and> s \<noteq> [] \<and> includes_str (toLowerCase s) ''success'')"
    by (simp_all add: finishing_response_def poll_finished_iff)

lemma finishing_response_Inr:
  "finishing_response (Inr status) =
     poll_finished (string_or_undefined (Option.bind status taskState))
       (string_or_undefined (Option.bind status transactionHash))"
  by (simp add: finishing_response_def)

lemma other_terminal_states_lack_success:
  assumes "s \<in> set TERMINAL_STATES" and "s \<noteq> ''ExecSuccess''"
  shows "\<not> includes_str (toLowerCase s) ''success''"
proof -
  have "\<not> includes_str (toLowerCase ''Cancelled'') ''success''"
    "\<not> includes_str (toLowerCase ''ExecReverted'') ''success''"
    "\<not> includes_str (toLowerCase ''Blacklisted'') ''success''"
    "\<not> includes_str (toLowerCase ''NotFound'') ''success''"
    "\<not> includes_str (toLowerCase ''Reverted'') ''success''"
    "\<not> includes_str (toLowerCase ''CancelledByUser'') ''success''"
    by code_simp+
  moreover have "s = ''ExecReverted'' \<or> s = ''Cancelled'' \<or> s = ''Blacklisted'' \<or>
      s = ''NotFound'' \<or> s = ''Reverted'' \<or> s = ''CancelledByUser''"
    using assms unfolding TERMINAL_STATES_def by (simp only: set_simps insert_iff empty_iff) argo
  ultimately show ?thesis by (elim disjE) (simp_all only: not_False_eq_True)
qed


lemma pollTask_loop_finished:
  assumes "\<forall>i<j. \<not> finishing_response (response (getTaskStatus taskId) st i) \<and>
             (\<forall>err. response (getTaskStatus taskId) st i = Inl err \<longrightarrow>
                log_throws message_throws err = None)"
    and "response (getTaskStatus taskId) st j = Inr status"
    and "finishing_response (response (getTaskStatus taskId) st j)"
    and "i0 + int j < statusPolls"
  shows "pollTask_loop message_throws getTaskStatus taskId statusPolls statusIntervalMs i0 task
           st n zs =
    \<lparr>shown_task = Some \<lparr>task_id = taskId,
        task_status = string_or_undefined (Option.bind status taskState),
        task_txHash = string_or_undefined (Option.bind status transactionHash)\<rparr>,
     queries = n + j + 1, intervals = zs @ replicate j statusIntervalMs,
     returned_early = True, threw = None\<rparr>"
  using assms
proof (induction j arbitrary: i0 task st n zs)
  case 0
  obtain st' where "getTaskStatus taskId st = (Inr status, st')"
    using "0.prems"(2) by (cases "getTaskStatus taskId st") (simp add: response_0)
  moreover have "poll_finished (string_or_undefined (Option.bind status taskState))
       (string_or_undefined (Option.bind status transactionHash))"
    using "0.prems"(2,3) by (simp add: finishing_response_Inr)
  ultimately show ?case
    using "0.prems"(4) by (subst pollTask_loop.simps) (simp add: Let_def)
next
  case (Suc j)
  obtain rsp st' where step: "getTaskStatus taskId st = (rsp, st')"
    by (cases "getTaskStatus taskId st")
  have rsp0: "response (getTaskStatus taskId) st 0 = rsp"
    using step by (simp add: response_0)
  have not_done: "\<not> finishing_response rsp"
    and logged: "\<forall>err. rsp = Inl err \<longrightarrow> log_throws message_throws err = None"
    using Suc.prems(1) rsp0 by (auto dest: spec [of _ 0])
  have IH: "pollTask_loop message_throws getTaskStatus taskId statusPolls statusIntervalMs
      (i0 + 1) task' st' (n + 1) (zs @ [statusIntervalMs]) =
    \<lparr>shown_task = Some \<lparr>task_id = taskId,
        task_status = string_or_undefined (Option.bind status taskState),
        task_txHash = string_or_undefined (Option.bind status transactionHash)\<rparr>,
     queries = (n + 1) + j + 1,
     intervals = (zs @ [statusIntervalMs]) @ replicate j statusIntervalMs,
     returned_early = True, threw = None\<rparr>" for task'
  proof (rule Suc.IH)
    show "\<forall>i<j. \<not> finishing_response (response (getTaskStatus taskId) st' i) \<and>
             (\<forall>err. response (getTaskStatus taskId) st' i = Inl err \<longrightarrow>
                log_throws message_throws err = None)"
      using Suc.prems(1) step response_Suc [of "getTaskStatus taskId" st] by auto
    show "response (getTaskStatus taskId) st' j = Inr status"
      using Suc.prems(2) step by (simp add: response_Suc)
    show "finishing_response (response (getTaskStatus taskId) st' j)"
      using Suc.prems(3) step by (simp add: response_Suc)
    show "i0 + 1 + int j < statusPolls"
      using Suc.prems(4) by simp
  qed
  have "i0 < statusPolls"
    using Suc.prems(4) by simp
  then show ?case
    using step not_done logged IH
    by (subst pollTask_loop.simps)
      (cases rsp; simp add: finishing_response_def Let_def replicate_app_Cons_same)
qed

lemma pollTask_loop_exhausted:
  assumes "\<forall>i<m. \<not> finishing_response (response (getTaskStatus taskId) st i) \<and>
             (\<forall>err. response (getTaskStatus taskId) st i = Inl err \<longrightarrow>
                log_throws message_throws err = None)"
    and "nat (statusPolls - i0) = m"
  shows "queries (pollTask_loop message_throws getTaskStatus taskId statusPolls
            statusIntervalMs i0 task st n zs) = n + m \<and>
         intervals (pollTask_loop message_throws getTaskStatus taskId statusPolls
            statusIntervalMs i0 task st n zs) = zs @ replicate m statusIntervalMs \<and>
         \<not> returned_early (pollTask_loop message_throws getTaskStatus taskId statusPolls
            statusIntervalMs i0 task st n zs) \<and>
         threw (pollTask_loop message_throws getTaskStatus taskId statusPolls
            statusIntervalMs i0 task st n zs) = None"
  using assms
proof (induction m arbitrary: i0 task st n zs)
  case 0
  then have "\<not> i0 < statusPolls" by simp
  then show ?case
    by (subst (1 2 3 4) pollTask_loop.simps) simp
next
  case (Suc m)
  obtain rsp st' where step: "getTaskStatus taskId st = (rsp, st')"
    by (cases "getTaskStatus taskId st")
  have rsp0: "response (getTaskStatus taskId) st 0 = rsp"
    using step by (simp add: response_0)
  have not_done: "\<not> finishing_response rsp"
    and logged: "\<forall>err. rsp = Inl err \<longrightarrow> log_throws message_throws err = None"
    using Suc.prems(1) rsp0 by (auto dest: spec [of _ 0])
  have IH: "queries (pollTask_loop message_throws getTaskStatus taskId statusPolls
            statusIntervalMs (i0 + 1) task' st' (n + 1) (zs @ [statusIntervalMs])) = (n + 1) + m \<and>
         intervals (pollTask_loop message_throws getTaskStatus taskId statusPolls
            statusIntervalMs (i0 + 1) task' st' (n + 1) (zs @ [statusIntervalMs]))
           = (zs @ [statusIntervalMs]) @ replicate m statusIntervalMs \<and>
         \<not> returned_early (pollTask_loop message_throws getTaskStatus taskId statusPolls
            statusIntervalMs (i0 + 1) task' st' (n + 1) (zs @ [statusIntervalMs])) \<and>
         threw (pollTask_loop message_throws getTaskStatus taskId statusPolls
            statusIntervalMs (i0 + 1) task' st' (n + 1) (zs @ [statusIntervalMs])) = None"
    for task'
  proof (rule Suc.IH)
    show "\<forall>i<m. \<not> finishing_response (response (getTaskStatus taskId) st' i) \<and>
             (\<forall>err. response (getTaskStatus taskId) st' i = Inl err \<longrightarrow>
                log_throws message_throws err = None)"
      using Suc.prems(1) step response_Suc [of "getTaskStatus taskId" st] by auto
    show "nat (statusPolls - (i0 + 1)) = m"
      using Suc.prems(2) by simp
  qed
  have "i0 < statusPolls"
    using Suc.prems(2) by simp
  then show ?case
    using step not_done logged IH
    by (subst (1 2 3 4) pollTask_loop.simps)
      (cases rsp; simp add: finishing_response_def Let_def replicate_app_Cons_same)
qed

lemma pollTask_loop_log_throws:
  assumes "\<forall>i<j. \<not> finishing_response (response (getTaskStatus taskId) st i) \<and>
             (\<forall>err. response (getTaskStatus taskId) st i = Inl err \<longrightarrow>
                log_throws message_throws err = None)"
    and "response (getTaskStatus taskId) st j = Inl err"
    and "log_throws message_throws err = Some t"
    and "i0 + int j < statusPolls"
  shows "queries (pollTask_loop message_throws getTaskStatus taskId statusPolls
            statusIntervalMs i0 task st n zs) = n + j + 1 \<and>
         intervals (pollTask_loop message_throws getTaskStatus taskId statusPolls
            statusIntervalMs i0 task st n zs) = zs @ replicate j statusIntervalMs \<and>
         \<not> returned_early (pollTask_loop message_throws getTaskStatus taskId statusPolls
            statusIntervalMs i0 task st n zs) \<and>
         threw (pollTask_loop message_throws getTaskStatus taskId statusPolls
            statusIntervalMs i0 task st n zs) = Some t"
  using assms
proof (induction j arbitrary: i0 task st n zs)
  case 0
  obtain st' where "getTaskStatus taskId st = (Inl err, st')"
    using "0.prems"(2) by (cases "getTaskStatus taskId st") (simp add: response_0)
  then show ?case
    using "0.prems"(3,4) by (subst (1 2 3 4) pollTask_loop.simps) simp
next
  case (Suc j)
  obtain rsp st' where step: "getTaskStatus taskId st = (rsp, st')"
    by (cases "getTaskStatus taskId st")
  have rsp0: "response (getTaskStatus taskId) st 0 = rsp"
    using step by (simp add: response_0)
  have not_done: "\<not> finishing_response rsp"
    and logged: "\<forall>err. rsp = Inl err \<longrightarrow> log_throws message_throws err = None"
    using Suc.prems(1) rsp0 by (auto dest: spec [of _ 0])
  have IH: "queries (pollTask_loop message_throws getTaskStatus taskId statusPolls
            statusIntervalMs (i0 + 1) task' st' (n + 1) (zs @ [statusIntervalMs]))
           = (n + 1) + j + 1 \<and>
         intervals (pollTask_loop message_throws getTaskStatus taskId statusPolls
            statusIntervalMs (i0 + 1) task' st' (n + 1) (zs @ [statusIntervalMs]))
           = (zs @ [statusIntervalMs]) @ replicate j statusIntervalMs \<and>
         \<not> returned_early (pollTask_loop message_throws getTaskStatus taskId statusPolls
            statusIntervalMs (i0 + 1) task' st' (n + 1) (zs @ [statusIntervalMs])) \<and>
         threw (pollTask_loop message_throws getTaskStatus taskId statusPolls
            statusIntervalMs (i0 + 1) task' st' (n + 1) (zs @ [statusIntervalMs])) = Some t"
    for task'
  proof (rule Suc.IH)
    show "\<forall>i<j. \<not> finishing_response (response (getTaskStatus taskId) st' i) \<and>
             (\<forall>err. response (getTaskStatus taskId) st' i = Inl err \<longrightarrow>
                log_throws message_throws err = None)"
      using Suc.prems(1) step response_Suc [of "getTaskStatus taskId" st] by auto
    show "response (getTaskStatus taskId) st' j = Inl err"
      using Suc.prems(2) step by (simp add: response_Suc)
    show "log_throws message_throws err = Some t" by (fact Suc.prems(3))
    show "i0 + 1 + int j < statusPolls"
      using Suc.prems(4) by simp
  qed
  have "i0 < statusPolls"
    using Suc.prems(4) by simp
  then show ?case
    using step not_done logged IH
    by (subst (1 2 3 4) pollTask_loop.simps)
      (cases rsp; simp add: finishing_response_def Let_def replicate_app_Cons_same)
qed


lemma pollTask_cases:
  assumes logged: "\<forall>i<nat statusPolls. \<forall>err. response (getTaskStatus taskId) st i = Inl err \<longrightarrow>
      log_throws message_throws err = None"
  obtains (finished) t status where
      "t < nat statusPolls"
      "\<forall>i<t. \<not> finishing_response (response (getTaskStatus taskId) st i)"
      "response (getTaskStatus taskId) st t = Inr status"
      "finishing_response (response (getTaskStatus taskId) st t)"
      "pollTask message_throws getTaskStatus taskId statusPolls statusIntervalMs task st =
         \<lparr>shown_task = Some \<lparr>task_id = taskId,
             task_status = string_or_undefined (Option.bind status taskState),
             task_txHash = string_or_undefined (Option.bind status transactionHash)\<rparr>,
          queries = t + 1, intervals = replicate t statusIntervalMs, returned_early = True,
          threw = None\<rparr>"
  | (exhausted)
      "\<forall>i<nat statusPolls. \<not> finishing_response (response (getTaskStatus taskId) st i)"
      "queries (pollTask message_throws getTaskStatus taskId statusPolls statusIntervalMs task st)
         = nat statusPolls"
      "intervals (pollTask message_throws getTaskStatus taskId statusPolls statusIntervalMs
         task st) = replicate (nat statusPolls) statusIntervalMs"
      "\<not> returned_early
          (pollTask message_throws getTaskStatus taskId statusPolls statusIntervalMs task st)"
      "threw (pollTask message_throws getTaskStatus taskId statusPolls statusIntervalMs task st)
         = None"
proof (cases "\<exists>j<nat statusPolls. finishing_response (response (getTaskStatus taskId) st j)")
  case True
  define t where "t = (LEAST j. finishing_response (response (getTaskStatus taskId) st j))"
  from True obtain j where j: "j < nat statusPolls"
    "finishing_response (response (getTaskStatus taskId) st j)"
    by blast
  have fin: "finishing_response (response (getTaskStatus taskId) st t)"
    unfolding t_def using j(2) by (rule LeastI)
  have before: "\<forall>i<t. \<not> finishing_response (response (getTaskStatus taskId) st i)"
    unfolding t_def using not_less_Least by blast
  have "t \<le> j"
    unfolding t_def using j(2) by (rule Least_le)
  then have bound: "t < nat statusPolls"
    using j(1) by simp
  have quiet: "\<forall>i<t. \<not> finishing_response (response (getTaskStatus taskId) st i) \<and>
             (\<forall>err. response (getTaskStatus taskId) st i = Inl err \<longrightarrow>
                log_throws message_throws err = None)"
  proof (intro allI impI)
    fix i assume i: "i < t"
    then have "i < nat statusPolls" using bound by simp
    with logged before i
    show "\<not> finishing_response (response (getTaskStatus taskId) st i) \<and>
             (\<forall>err. response (getTaskStatus taskId) st i = Inl err \<longrightarrow>
                log_throws message_throws err = None)"
      by blast
  qed
  obtain status where status: "response (getTaskStatus taskId) st t = Inr status"
    using fin by (cases "response (getTaskStatus taskId) st t")
      (simp_all add: finishing_response_simps)
  have "0 + int t < statusPolls"
    using bound by simp
  with quiet status fin
  have "pollTask message_throws getTaskStatus taskId statusPolls statusIntervalMs task st =
    \<lparr>shown_task = Some \<lparr>task_id = taskId,
        task_status = string_or_undefined (Option.bind status taskState),
        task_txHash = string_or_undefined (Option.bind status transactionHash)\<rparr>,
     queries = 0 + t + 1, intervals = [] @ replicate t statusIntervalMs,
     returned_early = True, threw = None\<rparr>"
    unfolding pollTask_def by (rule pollTask_loop_finished)
  then have "pollTask message_throws getTaskStatus taskId statusPolls statusIntervalMs task st =
    \<lparr>shown_task = Some \<lparr>task_id = taskId,
        task_status = string_or_undefined (Option.bind status taskState),
        task_txHash = string_or_undefined (Option.bind status transactionHash)\<rparr>,
     queries = t + 1, intervals = replicate t statusIntervalMs, returned_early = True,
     threw = None\<rparr>"
    by simp
  with bound before status fin show ?thesis by (rule finished)
next
  case False
  then have none: "\<forall>i<nat statusPolls. \<not> finishing_response (response (getTaskStatus taskId) st i)"
    by blast
  then have quiet: "\<forall>i<nat statusPolls.
      \<not> finishing_response (response (getTaskStatus taskId) st i) \<and>
      (\<forall>err. response (getTaskStatus taskId) st i = Inl err \<longrightarrow>
         log_throws message_throws err = None)"
    using logged by auto
  have "nat (statusPolls - 0) = nat statusPolls" by simp
  with quiet have
    "queries (pollTask_loop message_throws getTaskStatus taskId statusPolls statusIntervalMs 0
        task st 0 []) = 0 + nat statusPolls \<and>
     intervals (pollTask_loop message_throws getTaskStatus taskId statusPolls statusIntervalMs 0
        task st 0 []) = [] @ replicate (nat statusPolls) statusIntervalMs \<and>
     \<not> returned_early (pollTask_loop message_throws getTaskStatus taskId statusPolls
        statusIntervalMs 0 task st 0 []) \<and>
     threw (pollTask_loop message_throws getTaskStatus taskId statusPolls statusIntervalMs 0
        task st 0 []) = None"
    by (rule pollTask_loop_exhausted)
  then have "queries (pollTask message_throws getTaskStatus taskId statusPolls statusIntervalMs
        task st) = nat statusPolls"
      "intervals (pollTask message_throws getTaskStatus taskId statusPolls statusIntervalMs
         task st) = replicate (nat statusPolls) statusIntervalMs"
      "\<not> returned_early
          (pollTask message_throws getTaskStatus taskId statusPolls statusIntervalMs task st)"
      "threw (pollTask message_throws getTaskStatus taskId statusPolls statusIntervalMs task st)
         = None"
    by (simp_all add: pollTask_def)
  with none show ?thesis by (rule exhausted)
qed

text \<open>
  As long as the log line of the catch handler evaluates for the reason of every failed
  query, \<open>pollTask\<close> throws nothing and leaves its loop before the attempt limit only
  when the status just fetched has a transaction hash or a \<open>taskState\<close> whose lower-case
  form contains \<open>success\<close>; statuses without a hash in one of the other terminal states
  of the command-line poller never end the loop.
\<close>

lemma pollTask_when_log_evaluates:
  assumes logged: "\<forall>i<nat statusPolls. \<forall>err. response (getTaskStatus taskId) st i = Inl err \<longrightarrow>
      log_throws message_throws err = None"
  shows
  "(let r = pollTask message_throws getTaskStatus taskId statusPolls statusIntervalMs task st;
        rsp = response (getTaskStatus taskId) st
    in threw r = None \<and>
       (int (queries r) < statusPolls \<longrightarrow> returned_early r) \<and>
       (returned_early r \<longrightarrow>
          0 < queries r \<and> int (queries r) \<le> statusPolls \<and>
          (\<exists>status. rsp (queries r - 1) = Inr (Some status) \<and>
             ((\<exists>h. transactionHash status = Some h \<and> h \<noteq> []) \<or>
              (\<exists>s. taskState status = Some s \<and> includes_str (toLowerCase s) ''success'')))) \<and>
       ((\<forall>i<nat statusPolls. \<forall>status. rsp i = Inr (Some status) \<longrightarrow>
            \<not> truthy (transactionHash status) \<and>
            (\<exists>s. taskState status = Some s \<and> s \<in> set TERMINAL_STATES \<and>
               s \<noteq> ''ExecSuccess'')) \<longrightarrow>
          queries r = nat statusPolls \<and> \<not> returned_early r \<and>
          intervals r = replicate (nat statusPolls) statusIntervalMs))"
proof -
  let ?r = "pollTask message_throws getTaskStatus taskId statusPolls statusIntervalMs task st"
  let ?rsp = "response (getTaskStatus taskId) st"
  note cases = pollTask_cases
    [where getTaskStatus = getTaskStatus and taskId = taskId and st = st
       and message_throws = message_throws and statusPolls = statusPolls
       and statusIntervalMs = statusIntervalMs and task = task]
  have quiet: "threw ?r = None"
    using logged
  proof (cases rule: cases)
    case (finished t status)
    then show ?thesis by simp
  next
    case exhausted
    then show ?thesis by simp
  qed
  have early: "int (queries ?r) < statusPolls \<longrightarrow> returned_early ?r"
    using logged
  proof (cases rule: cases)
    case (finished t status)
    then show ?thesis by simp
  next
    case exhausted
    then show ?thesis by simp
  qed
  have loop: "returned_early ?r \<longrightarrow>
          0 < queries ?r \<and> int (queries ?r) \<le> statusPolls \<and>
          (\<exists>status. ?rsp (queries ?r - 1) = Inr (Some status) \<and>
             ((\<exists>h. transactionHash status = Some h \<and> h \<noteq> []) \<or>
              (\<exists>s. taskState status = Some s \<and> includes_str (toLowerCase s) ''success'')))"
    using logged
  proof (cases rule: cases)
    case (finished t status)
    have "int (t + 1) \<le> statusPolls"
      using finished(1) by simp
    moreover obtain status' where "status = Some status'"
      using finished(3,4) by (cases status) (simp_all add: finishing_response_simps)
    ultimately show ?thesis
      using finished(3,4) by (auto simp: finished(5) finishing_response_simps)
  next
    case exhausted
    then show ?thesis by simp
  qed
  have others: "(\<forall>i<nat statusPolls. \<forall>status. ?rsp i = Inr (Some status) \<longrightarrow>
            \<not> truthy (transactionHash status) \<and>
            (\<exists>s. taskState status = Some s \<and> s \<in> set TERMINAL_STATES \<and>
               s \<noteq> ''ExecSuccess'')) \<longrightarrow>
          queries ?r = nat statusPolls \<and> \<not> returned_early ?r \<and>
          intervals ?r = replicate (nat statusPolls) statusIntervalMs"
  proof
    assume a: "\<forall>i<nat statusPolls. \<forall>status. ?rsp i = Inr (Some status) \<longrightarrow>
            \<not> truthy (transactionHash status) \<and>
            (\<exists>s. taskState status = Some s \<and> s \<in> set TERMINAL_STATES \<and>
               s \<noteq> ''ExecSuccess'')"
    have none: "\<not> finishing_response (?rsp i)" if "i < nat statusPolls" for i
    proof (cases "?rsp i")
      case (Inl err)
      then show ?thesis by (simp add: finishing_response_simps)
    next
      case (Inr status)
      show ?thesis
      proof (cases status)
        case None
        then show ?thesis using Inr by (simp add: finishing_response_simps)
      next
        case (Some status')
        from a have "i < nat statusPolls \<longrightarrow> (\<forall>status. ?rsp i = Inr (Some status) \<longrightarrow>
            \<not> truthy (transactionHash status) \<and>
            (\<exists>s. taskState status = Some s \<and> s \<in> set TERMINAL_STATES \<and>
               s \<noteq> ''ExecSuccess''))"
          by (rule spec)
        from this that have "\<forall>status. ?rsp i = Inr (Some status) \<longrightarrow>
            \<not> truthy (transactionHash status) \<and>
            (\<exists>s. taskState status = Some s \<and> s \<in> set TERMINAL_STATES \<and>
               s \<noteq> ''ExecSuccess'')"
          by (rule mp)
        then have "?rsp i = Inr (Some status') \<longrightarrow>
            \<not> truthy (transactionHash status') \<and>
            (\<exists>s. taskState status' = Some s \<and> s \<in> set TERMINAL_STATES \<and>
               s \<noteq> ''ExecSuccess'')"
          by (rule spec)
        moreover have "?rsp i = Inr (Some status')"
          using Inr Some by simp
        ultimately have both: "\<not> truthy (transactionHash status') \<and>
            (\<exists>s. taskState status' = Some s \<and> s \<in> set TERMINAL_STATES \<and>
               s \<noteq> ''ExecSuccess'')"
          by (rule mp)
        then have hashless: "\<not> truthy (transactionHash status')" ..
        from both obtain s where s: "taskState status' = Some s"
          "s \<in> set TERMINAL_STATES" "s \<noteq> ''ExecSuccess''"
          by (elim conjE exE)
        have "\<not> includes_str (toLowerCase s) ''success''"
          using s(2,3) by (rule other_terminal_states_lack_success)
        then show ?thesis
          using Inr Some s(1) hashless by (auto simp: finishing_response_simps truthy_iff)
      qed
    qed
    show "queries ?r = nat statusPolls \<and> \<not> returned_early ?r \<and>
          intervals ?r = replicate (nat statusPolls) statusIntervalMs"
      using logged
  proof (cases rule: cases)
      case (finished t status)
      then show ?thesis using none by blast
    next
      case exhausted
      then show ?thesis by simp
    qed
  qed
  show ?thesis
    unfolding Let_def using quiet early loop others by blast
qed



text \<open>
  With rejection reasons that are objects the poller behaves as described: a relay that
  always reports a cancelled task without a hash is polled up to the limit, where the
  command-line poller returns at the first query; a failed query is followed by the
  next one, and a status with a hash ends the loop.
\<close>

lemma pollTask_examples:
  "pollTask error_message_evaluates cancelled_relay ''task-1'' 3 5000 None 0 =
     \<lparr>shown_task = Some \<lparr>task_id = ''task-1'', task_status = Some ''Cancelled'',
                           task_txHash = None\<rparr>,
      queries = 3, intervals = [5000, 5000, 5000], returned_early = False, threw = None\<rparr>"
  "waitForTaskFinal cancelled_relay ''task-1'' 3 5000 0 =
     \<lparr>returned = Some cancelled_status, polls = 1, waited = [], from_loop = True\<rparr>"
  "pollTask error_message_evaluates failing_once_relay ''task-1'' 5 5000 None 0 =
     \<lparr>shown_task = Some \<lparr>task_id = ''task-1'', task_status = Some ''CheckPending'',
                           task_txHash = Some ''0xabc''\<rparr>,
      queries = 3, intervals = [5000, 5000], returned_early = True, threw = None\<rparr>"
  by code_simp+


lemma handleSubmit_validated:
  assumes "wallet_connected app" "truthy (relayApiKey app)" "tokenDecimals app = Some decimals"
    "tokenBalance app = Some balance" "parseUnits (amountInput app) decimals = Inr amount"
  shows "handleSubmit parseUnits app =
     (if amount \<le> 0 then ValidationError ''Amount must be greater than zero.''
      else if amount > balance then ValidationError ''Insufficient balance.''
      else NetworkFlow amount)"
    and "handleSubmit_part_000 parseUnits app =
     (if amount \<le> 0 then ValidationError ''Amount must be greater than zero.''
      else if amount \<ge> balance then ValidationError ''Amount must be smaller than your balance.''
      else NetworkFlow amount)"
  using assms by (simp_all add: handleSubmit_def handleSubmit_part_000_def)

lemma handleSubmit_NetworkFlow:
  assumes "handleSubmit parseUnits app = NetworkFlow a"
  shows "wallet_connected app \<and> truthy (relayApiKey app) \<and>
     (\<exists>d b. tokenDecimals app = Some d \<and> tokenBalance app = Some b \<and>
        parseUnits (amountInput app) d = Inr a \<and> 0 < a \<and> a \<le> b)"
  using assms
  by (auto simp: handleSubmit_def split: if_splits option.splits sum.splits)

lemma handleSubmit_part_000_NetworkFlow:
  assumes "handleSubmit_part_000 parseUnits app = NetworkFlow a"
  shows "wallet_connected app \<and> truthy (relayApiKey app) \<and>
     (\<exists>d b. tokenDecimals app = Some d \<and> tokenBalance app = Some b \<and>
        parseUnits (amountInput app) d = Inr a \<and> 0 < a \<and> a < b)"
  using assms
  by (auto simp: handleSubmit_part_000_def split: if_splits option.splits sum.splits)

text \<open>
  Claim C5, as amended. In the submit handler of frontend/src/App.tsx, for every parsed
  amount and loaded balance, the flow goes past validation to the network calls if and
  only if \<open>0 < amount \<le> balance\<close>; in the other version of the handler it does so if and
  only if \<open>0 < amount < balance\<close>. In both, every other amount is reported as a validation
  error and no network call is made, and no state of the application reaches the
  network calls without a loaded balance bounding a positive parsed amount.
\<close>

theorem handleSubmit_validation:
  "(wallet_connected app \<and> truthy (relayApiKey app) \<and> tokenDecimals app = Some decimals \<and>
    tokenBalance app = Some balance \<and> parseUnits (amountInput app) decimals = Inr amount \<longrightarrow>
      (handleSubmit parseUnits app = NetworkFlow amount \<longleftrightarrow> 0 < amount \<and> amount \<le> balance) \<and>
      (\<not> (0 < amount \<and> amount \<le> balance) \<longrightarrow>
         (\<exists>msg. handleSubmit parseUnits app = ValidationError msg)) \<and>
      (handleSubmit_part_000 parseUnits app = NetworkFlow amount \<longleftrightarrow>
         0 < amount \<and> amount < balance) \<and>
      (\<not> (0 < amount \<and> amount < balance) \<longrightarrow>
         (\<exists>msg. handleSubmit_part_000 parseUnits app = ValidationError msg))) \<and>
   (handleSubmit parseUnits app = NetworkFlow a \<longrightarrow>
      0 < a \<and> (\<exists>b. tokenBalance app = Some b \<and> a \<le> b)) \<and>
   (handleSubmit_part_000 parseUnits app = NetworkFlow a \<longrightarrow>
      0 < a \<and> (\<exists>b. tokenBalance app = Some b \<and> a < b))"
proof -
  have flow: "handleSubmit parseUnits app = NetworkFlow a \<longrightarrow>
      0 < a \<and> (\<exists>b. tokenBalance app = Some b \<and> a \<le> b)"
    using handleSubmit_NetworkFlow [of parseUnits app a] by blast
  have flow0: "handleSubmit_part_000 parseUnits app = NetworkFlow a \<longrightarrow>
      0 < a \<and> (\<exists>b. tokenBalance app = Some b \<and> a < b)"
    using handleSubmit_part_000_NetworkFlow [of parseUnits app a] by blast
  have checked: "(handleSubmit parseUnits app = NetworkFlow amount \<longleftrightarrow> 0 < amount \<and> amount \<le> balance) \<and>
      (\<not> (0 < amount \<and> amount \<le> balance) \<longrightarrow>
         (\<exists>msg. handleSubmit parseUnits app = ValidationError msg)) \<and>
      (handleSubmit_part_000 parseUnits app = NetworkFlow amount \<longleftrightarrow>
         0 < amount \<and> amount < balance) \<and>
      (\<not> (0 < amount \<and> amount < balance) \<longrightarrow>
         (\<exists>msg. handleSubmit_part_000 parseUnits app = ValidationError msg))"
    if a: "wallet_connected app \<and> truthy (relayApiKey app) \<and> tokenDecimals app = Some decimals \<and>
      tokenBalance app = Some balance \<and> parseUnits (amountInput app) decimals = Inr amount"
  proof -
    from a have c: "wallet_connected app" "truthy (relayApiKey app)"
      "tokenDecimals app = Some decimals" "tokenBalance app = Some balance"
      "parseUnits (amountInput app) decimals = Inr amount"
      by blast+
    note eq = handleSubmit_validated(1) [where parseUnits = parseUnits, OF c]
      and eq0 = handleSubmit_validated(2) [where parseUnits = parseUnits, OF c]
    have "handleSubmit parseUnits app = NetworkFlow amount \<longleftrightarrow> 0 < amount \<and> amount \<le> balance"
      by (auto simp: eq)
    moreover have "handleSubmit_part_000 parseUnits app = NetworkFlow amount \<longleftrightarrow>
         0 < amount \<and> amount < balance"
      by (auto simp: eq0)
    moreover have "\<not> (0 < amount \<and> amount \<le> balance) \<longrightarrow>
         (\<exists>msg. handleSubmit parseUnits app = ValidationError msg)"
      by (auto simp: eq)
    moreover have "\<not> (0 < amount \<and> amount < balance) \<longrightarrow>
         (\<exists>msg. handleSubmit_part_000 parseUnits app = ValidationError msg)"
      by (auto simp: eq0)
    ultimately show ?thesis by blast
  qed
  show ?thesis
    using flow flow0 checked by blast
qed

lemma example_app_state:
  "wallet_connected example_app" "truthy (relayApiKey example_app)"
  "tokenDecimals example_app = Some 6" "tokenBalance example_app = Some 5000000"
  "example_parseUnits (amountInput example_app) 6 = Inr 5000000"
  by code_simp+

lemma example_app_runs:
  "handleSubmit example_parseUnits example_app = NetworkFlow 5000000"
  "handleSubmit_part_000 example_parseUnits example_app =
     ValidationError ''Amount must be smaller than your balance.''"
  "handleSubmit_part_000 example_parseUnits (example_app\<lparr>amountInput := ''4''\<rparr>) =
     NetworkFlow 4000000"
  "handleSubmit example_parseUnits (example_app\<lparr>amountInput := ''6''\<rparr>) =
     ValidationError ''Insufficient balance.''"
  by code_simp+

theorem handleSubmit_validation_witness:
  "wallet_connected example_app \<and> truthy (relayApiKey example_app) \<and>
   tokenDecimals example_app = Some 6 \<and> tokenBalance example_app = Some 5000000 \<and>
   example_parseUnits (amountInput example_app) 6 = Inr 5000000 \<and>
   (0::int) < 5000000 \<and> (5000000::int) \<le> 5000000 \<and>
   handleSubmit example_parseUnits example_app = NetworkFlow 5000000 \<and>
   handleSubmit_part_000 example_parseUnits (example_app\<lparr>amountInput := ''4''\<rparr>) =
     NetworkFlow 4000000 \<and>
   handleSubmit example_parseUnits (example_app\<lparr>amountInput := ''6''\<rparr>) =
     ValidationError ''Insufficient balance.''"
proof -
  have "handleSubmit example_parseUnits example_app = NetworkFlow 5000000"
    using handleSubmit_validation
      [of example_app 6 5000000 example_parseUnits 5000000 5000000] example_app_state
    by simp
  with example_app_state example_app_runs(3,4) show ?thesis by simp
qed

text \<open>
  With the bound \<open>amount \<le> balance\<close> for both versions the statement fails: in the other
  version of the handler an amount equal to the balance is positive and within the
  balance, and is rejected.
\<close>

theorem handleSubmit_validation_counterexample:
  "wallet_connected example_app \<and> truthy (relayApiKey example_app) \<and>
   tokenDecimals example_app = Some 6 \<and> tokenBalance example_app = Some 5000000 \<and>
   example_parseUnits (amountInput example_app) 6 = Inr 5000000 \<and>
   (0::int) < 5000000 \<and> (5000000::int) \<le> 5000000 \<and>
   handleSubmit_part_000 example_parseUnits example_app =
     ValidationError ''Amount must be smaller than your balance.''"
  using example_app_state example_app_runs(2) by simp

end
